theory Spec2Isabelle
  imports Main
begin

section \<open>Data model of a collection\<close>

text \<open>
  The scripts work on parsed JSON documents. The members that the code reads are fields
  here; a member that may be missing is an \<open>option\<close>. Strings are ASCII texts.
\<close>

record script =
  exec :: "string list option"
  script_type :: "string option"

record event =
  listen :: string
  script :: "script option"

datatype url_path = PathArray "string list" | PathString string

datatype url = UrlString string | UrlObject (raw: "string option") (path: "url_path option")

text \<open>
  \<open>http_method\<close> is \<open>None\<close> when \<open>typeof item.request.method\<close> is not \<open>'string'\<close>.
\<close>

record request =
  http_method :: "string option"
  url :: "url option"
  body :: "string option"

record leaf =
  name :: string
  request :: "request option"
  event :: "event list option"
  response :: "string list"

text \<open>
  A node with an \<open>item\<close> member is a folder (\<open>if (item.item)\<close>; an empty array is
  truthy as well), any other node is a request leaf.
\<close>

datatype item = Folder string "item list" | Leaf leaf

record info =
  info_name :: string
  postman_id :: "string option"

record variable =
  var_key :: string
  var_value :: string

record collection =
  info :: info
  item :: "item list"
  collection_event :: "event list option"
  collection_variable :: "variable list option"

record options =
  preserveTests :: bool
  preservePrerequest :: bool
  preserveVariables :: bool
  dryRun :: bool
  verbose :: bool

section \<open>scripts/merge-collections.js\<close>

subsection \<open>Array and string helpers of the language\<close>

text \<open>\<open>Array.prototype.join\<close> on an array of strings.\<close>

fun join :: "string \<Rightarrow> string list \<Rightarrow> string" where
  "join sep [] = []"
| "join sep [x] = x"
| "join sep (x # y # ys) = x @ sep @ join sep (y # ys)"

text \<open>\<open>Array.prototype.findIndex\<close>; \<open>None\<close> stands for \<open>-1\<close>.\<close>

fun findIndex :: "('a \<Rightarrow> bool) \<Rightarrow> 'a list \<Rightarrow> nat option" where
  "findIndex p [] = None"
| "findIndex p (x # xs) =
     (if p x then Some 0 else (case findIndex p xs of None \<Rightarrow> None | Some i \<Rightarrow> Some (Suc i)))"

text \<open>
  \<open>String.prototype.trim\<close> removes white space and line terminators from both ends;
  in ASCII these are TAB, LF, VT, FF, CR and the space.
\<close>

definition isWhiteSpace :: "char \<Rightarrow> bool" where
  "isWhiteSpace c =
     (c = CHR 0x09 \<or> c = CHR 0x0A \<or> c = CHR 0x0B \<or> c = CHR 0x0C \<or> c = CHR 0x0D \<or> c = CHR 0x20)"

definition trim :: "string \<Rightarrow> string" where
  "trim s = rev (dropWhile isWhiteSpace (rev (dropWhile isWhiteSpace s)))"

subsection \<open>Endpoint keys and the index of the existing collection\<close>

text \<open>\<open>parentPath ? `${parentPath}/${item.name}` : item.name\<close>\<close>

definition itemPathOf :: "string \<Rightarrow> string \<Rightarrow> string" where
  "itemPathOf parentPath n = (if parentPath \<noteq> [] then parentPath @ ''/'' @ n else n)"

definition generateItemKey :: "leaf \<Rightarrow> string \<Rightarrow> string" where
  "generateItemKey it itemPath =
     (case request it of
        None \<Rightarrow> itemPath
      | Some r \<Rightarrow>
          (case http_method r of Some m \<Rightarrow> m | None \<Rightarrow> ''GET'') @ '':'' @
          (case url r of
             None \<Rightarrow> []
           | Some (UrlString s) \<Rightarrow> s
           | Some (UrlObject rw p) \<Rightarrow>
               (case p of
                  None \<Rightarrow> []
                | Some (PathArray segs) \<Rightarrow> join ''/'' segs
                | Some (PathString s) \<Rightarrow> s)))"

text \<open>
  The index is a JavaScript object used as a dictionary from keys to \<open>{item, path}\<close>;
  a later entry with the same key overwrites the earlier one. It is read here as the map of
  its own properties. The object also inherits the members of \<open>Object.prototype\<close>
  (\<open>constructor\<close>, \<open>toString\<close>, ...); none of their names contains a colon, and the key
  of a leaf that has a request does, so the two readings agree on such leaves.
\<close>

type_synonym items_map = "string \<rightharpoonup> (leaf \<times> string)"

fun buildItemMap :: "string \<Rightarrow> item \<Rightarrow> items_map \<Rightarrow> items_map" where
  "buildItemMap parentPath (Folder n cs) m = fold (buildItemMap (itemPathOf parentPath n)) cs m"
| "buildItemMap parentPath (Leaf l) m =
     m(generateItemKey l (itemPathOf parentPath (name l)) \<mapsto> (l, itemPathOf parentPath (name l)))"

definition buildItemsMap :: "item list \<Rightarrow> string \<Rightarrow> items_map \<Rightarrow> items_map" where
  "buildItemsMap items parentPath m = fold (buildItemMap parentPath) items m"

subsection \<open>Merging one request\<close>

definition hasNonEmptyScript :: "event \<Rightarrow> bool" where
  "hasNonEmptyScript e =
     (case script e of
        None \<Rightarrow> False
      | Some s \<Rightarrow>
          (case exec s of
             None \<Rightarrow> False
           | Some ls \<Rightarrow> length ls > 0 \<and> list_ex (\<lambda>line. trim line \<noteq> []) ls))"

text \<open>
  The body of the loop over the events of the existing request, as a function of the
  event array of the merged request. The test \<open>hasScript\<close> of the loop is the expression
  of \<open>hasNonEmptyScript\<close>, written out a second time in the source.
\<close>

definition mergeEvent :: "event list \<Rightarrow> event \<Rightarrow> event list" where
  "mergeEvent mergedEvents existingEvent =
     (if hasNonEmptyScript existingEvent then
        (case findIndex (\<lambda>e. listen e = listen existingEvent) mergedEvents of
           None \<Rightarrow> mergedEvents @ [existingEvent]
         | Some i \<Rightarrow>
             if \<not> hasNonEmptyScript (mergedEvents ! i)
             then mergedEvents[i := existingEvent]
             else mergedEvents)
      else mergedEvents)"

text \<open>
  \<open>_.cloneDeep(newRequest)\<close> yields an equal value; on values the copy is the identity.
\<close>

definition mergeRequest :: "leaf \<Rightarrow> leaf \<Rightarrow> leaf" where
  "mergeRequest newRequest existingRequest =
     (case event existingRequest of
        None \<Rightarrow> newRequest
      | Some existingEvents \<Rightarrow>
          if length existingEvents > 0 then
            newRequest\<lparr>event :=
              Some (foldl mergeEvent
                     (case event newRequest of None \<Rightarrow> [] | Some es \<Rightarrow> es)
                     existingEvents)\<rparr>
          else newRequest)"

fun mergeItem :: "items_map \<Rightarrow> string \<Rightarrow> item \<Rightarrow> item" where
  "mergeItem existingItemsMap parentPath (Folder n cs) =
     Folder n (map (mergeItem existingItemsMap (itemPathOf parentPath n)) cs)"
| "mergeItem existingItemsMap parentPath (Leaf l) =
     (case existingItemsMap (generateItemKey l (itemPathOf parentPath (name l))) of
        Some existing \<Rightarrow> Leaf (mergeRequest l (fst existing))
      | None \<Rightarrow> Leaf l)"

definition mergeItems :: "item list \<Rightarrow> items_map \<Rightarrow> string \<Rightarrow> item list" where
  "mergeItems newItems existingItemsMap parentPath =
     map (mergeItem existingItemsMap parentPath) newItems"

subsection \<open>Merging two collections\<close>

text \<open>
  The two blocks that preserve the collection-level scripts differ only in the listen
  type (\<open>'prerequest'\<close>, \<open>'test'\<close>). \<open>mergedEvent\<close> is the \<open>event\<close> member of the
  merged collection, \<open>existingEvents\<close> the event array of the existing collection.
\<close>

definition preserveCollectionScript ::
  "string \<Rightarrow> event list \<Rightarrow> event list option \<Rightarrow> event list option" where
  "preserveCollectionScript listenType existingEvents mergedEvent =
     (case find (\<lambda>e. listen e = listenType) existingEvents of
        None \<Rightarrow> mergedEvent
      | Some existingScript \<Rightarrow>
          (let evs = (case mergedEvent of None \<Rightarrow> [] | Some es \<Rightarrow> es) in
           case find (\<lambda>e. listen e = listenType) evs of
             None \<Rightarrow> Some (evs @ [existingScript])
           | Some newScript \<Rightarrow> Some evs))"

text \<open>
  \<open>newVarKeys\<close> is computed once, from the variables of the new collection, before the loop
  that appends the variables of the existing collection.
\<close>

definition preserveCollectionVariables ::
  "variable list \<Rightarrow> variable list option \<Rightarrow> variable list option \<Rightarrow> variable list option" where
  "preserveCollectionVariables existingVariables newVariable mergedVariable =
     (let newVarKeys = set (map var_key (case newVariable of None \<Rightarrow> [] | Some vs \<Rightarrow> vs)) in
      Some ((case mergedVariable of None \<Rightarrow> [] | Some vs \<Rightarrow> vs) @
            filter (\<lambda>v. var_key v \<notin> newVarKeys) existingVariables))"

text \<open>
  The part of \<open>merge\<close> that runs when both files exist. A string is truthy when it is not
  empty (\<open>existingCollection.info._postman_id || newCollection.info._postman_id\<close>).
\<close>

definition mergeCollections :: "options \<Rightarrow> collection \<Rightarrow> collection \<Rightarrow> collection" where
  "mergeCollections opts newCollection existingCollection =
     (let existingItemsMap = buildItemsMap (item existingCollection) [] Map.empty;
          mergedItems = mergeItems (item newCollection) existingItemsMap [];
          merged0 = newCollection
            \<lparr>info := (info newCollection)
               \<lparr>postman_id :=
                  (case postman_id (info existingCollection) of
                     Some i \<Rightarrow> if i \<noteq> [] then Some i else postman_id (info newCollection)
                   | None \<Rightarrow> postman_id (info newCollection))\<rparr>,
             item := mergedItems\<rparr>;
          merged1 =
            (case collection_event existingCollection of
               Some evs \<Rightarrow>
                 if preservePrerequest opts
                 then merged0\<lparr>collection_event :=
                        preserveCollectionScript ''prerequest'' evs (collection_event merged0)\<rparr>
                 else merged0
             | None \<Rightarrow> merged0);
          merged2 =
            (case collection_event existingCollection of
               Some evs \<Rightarrow>
                 if preserveTests opts
                 then merged1\<lparr>collection_event :=
                        preserveCollectionScript ''test'' evs (collection_event merged1)\<rparr>
                 else merged1
             | None \<Rightarrow> merged1);
          merged3 =
            (case collection_variable existingCollection of
               Some vs \<Rightarrow>
                 if preserveVariables opts
                 then merged2\<lparr>collection_variable :=
                        preserveCollectionVariables vs
                          (collection_variable newCollection) (collection_variable merged2)\<rparr>
                 else merged2
             | None \<Rightarrow> merged2)
      in merged3)"

text \<open>
  \<open>merge\<close> reads two files; a file that does not exist is \<open>None\<close>. A missing new
  collection throws, and the handler ends the process. Writing the output file and the
  log are not part of the model.
\<close>

datatype error = NewCollectionNotFound

definition merge :: "options \<Rightarrow> collection option \<Rightarrow> collection option \<Rightarrow> error + collection" where
  "merge opts newFile existingFile =
     (case newFile of
        None \<Rightarrow> Inl NewCollectionNotFound
      | Some newCollection \<Rightarrow>
          (case existingFile of
             None \<Rightarrow> Inr newCollection
           | Some existingCollection \<Rightarrow>
               Inr (mergeCollections opts newCollection existingCollection)))"

subsection \<open>The diff of two collections\<close>

text \<open>
  A JavaScript \<open>Set\<close> of strings keeps its members in the order of their first insertion:
  it is a list without duplicates here.
\<close>

definition setAdd :: "string \<Rightarrow> string list \<Rightarrow> string list" where
  "setAdd x s = (if x \<in> set s then s else s @ [x])"

fun collectEndpoint :: "string \<Rightarrow> item \<Rightarrow> string list \<Rightarrow> string list" where
  "collectEndpoint prefix (Folder n cs) s = fold (collectEndpoint (prefix @ n @ ''/'')) cs s"
| "collectEndpoint prefix (Leaf l) s = setAdd (prefix @ name l) s"

definition collectEndpoints :: "item list \<Rightarrow> string list \<Rightarrow> string \<Rightarrow> string list" where
  "collectEndpoints items s prefix = fold (collectEndpoint prefix) items s"

record diff =
  added :: "string list"
  removed :: "string list"
  preserved :: "string list"

definition calculateDiff :: "collection \<Rightarrow> collection \<Rightarrow> diff" where
  "calculateDiff existingCollection mergedCollection =
     (let existingEndpoints = collectEndpoints (item existingCollection) [] [];
          mergedEndpoints = collectEndpoints (item mergedCollection) [] []
      in \<lparr>added = filter (\<lambda>e. e \<notin> set existingEndpoints) mergedEndpoints,
          removed = filter (\<lambda>e. e \<notin> set mergedEndpoints) existingEndpoints,
          preserved = filter (\<lambda>e. e \<in> set existingEndpoints) mergedEndpoints\<rparr>)"

subsection \<open>Reading and example values\<close>

text \<open>
  The event array of a request, an absent \<open>event\<close> member read as the empty array (the
  source does the same with \<open>if (!merged.event) merged.event = []\<close>).
\<close>

definition eventsOf :: "leaf \<Rightarrow> event list" where
  "eventsOf l = (case event l of None \<Rightarrow> [] | Some es \<Rightarrow> es)"

definition exampleEvent :: "string \<Rightarrow> string list \<Rightarrow> event" where
  "exampleEvent l ls =
     \<lparr>listen = l, script = Some \<lparr>exec = Some ls, script_type = Some ''text/javascript''\<rparr>\<rparr>"

definition exampleRequest :: "string \<Rightarrow> event list option \<Rightarrow> leaf" where
  "exampleRequest n evs =
     \<lparr>name = n,
      request = Some \<lparr>http_method = Some ''GET'',
                      url = Some (UrlObject None (Some (PathArray [''pets'']))), body = None\<rparr>,
      event = evs, response = []\<rparr>"

text \<open>The event array of a collection, an absent \<open>event\<close> member read as the empty array.\<close>

definition collectionEventsOf :: "collection \<Rightarrow> event list" where
  "collectionEventsOf c = (case collection_event c of None \<Rightarrow> [] | Some es \<Rightarrow> es)"

text \<open>
  The first event of listen type \<open>l\<close> of the existing collection, as a list, when the array
  \<open>newEvents\<close> has no event of that type; the empty list otherwise.
\<close>

definition missingScript :: "string \<Rightarrow> event list \<Rightarrow> event list \<Rightarrow> event list" where
  "missingScript l existingEvents newEvents =
     (case find (\<lambda>e. listen e = l) existingEvents of
        None \<Rightarrow> []
      | Some ex \<Rightarrow> if list_ex (\<lambda>e. listen e = l) newEvents then [] else [ex])"

definition exampleCollection ::
  "item list \<Rightarrow> event list option \<Rightarrow> variable list option \<Rightarrow> collection" where
  "exampleCollection its evs vars =
     \<lparr>info = \<lparr>info_name = ''Pets'', postman_id = Some ''id-1''\<rparr>, item = its,
      collection_event = evs, collection_variable = vars\<rparr>"

text \<open>The options as the command line leaves them when no flag is given.\<close>

definition defaultOptions :: options where
  "defaultOptions = \<lparr>preserveTests = True, preservePrerequest = True, preserveVariables = True,
     dryRun = False, verbose = False\<rparr>"

subsection \<open>Display paths, in the words of the specification\<close>

text \<open>
  The display path of a request leaf: the names of the folders above it and its own name,
  joined with \<open>/\<close>. This is not taken from the source; \<open>collectEndpoints\<close> is compared
  with it below.
\<close>

fun leafPaths :: "string list \<Rightarrow> item \<Rightarrow> string list" where
  "leafPaths folders (Folder n cs) = concat (map (leafPaths (folders @ [n])) cs)"
| "leafPaths folders (Leaf l) = [join ''/'' (folders @ [name l])]"

definition displayPaths :: "item list \<Rightarrow> string list" where
  "displayPaths items = concat (map (leafPaths []) items)"

subsection \<open>The arrays at the root of the new collection, held in a store\<close>

text \<open>
  \<open>mergedCollection = {...newCollection, info: ..., item: mergedItems}\<close> copies the members
  of the new collection one level deep: its \<open>event\<close> and \<open>variable\<close> members are references
  to the arrays of the new collection, and \<open>push\<close> changes an array in place. To observe
  this, the two arrays live in a store, and a collection object holds their addresses. The
  existing collection is only read and stays a value. The steps are those of
  \<open>mergeCollections\<close>, in the same order.
\<close>

type_synonym address = nat

record store =
  eventArrays :: "address \<Rightarrow> event list"
  variableArrays :: "address \<Rightarrow> variable list"
  nextAddress :: address

record collection_object =
  object_info :: info
  object_item :: "item list"
  object_event :: "address option"
  object_variable :: "address option"

text \<open>The collection that an object denotes in a store.\<close>

definition loadCollection :: "store \<Rightarrow> collection_object \<Rightarrow> collection" where
  "loadCollection st obj =
     \<lparr>info = object_info obj, item = object_item obj,
      collection_event = map_option (eventArrays st) (object_event obj),
      collection_variable = map_option (variableArrays st) (object_variable obj)\<rparr>"

text \<open>\<open>mergedCollection.event = []\<close> and \<open>mergedCollection.variable = []\<close>: a fresh empty array.\<close>

definition newEventArray :: "store \<Rightarrow> address \<times> store" where
  "newEventArray st =
     (nextAddress st,
      st\<lparr>eventArrays := (eventArrays st)(nextAddress st := []),
         nextAddress := Suc (nextAddress st)\<rparr>)"

definition newVariableArray :: "store \<Rightarrow> address \<times> store" where
  "newVariableArray st =
     (nextAddress st,
      st\<lparr>variableArrays := (variableArrays st)(nextAddress st := []),
         nextAddress := Suc (nextAddress st)\<rparr>)"

text \<open>\<open>Array.prototype.push\<close> on the array at an address.\<close>

definition pushEvent :: "address \<Rightarrow> event \<Rightarrow> store \<Rightarrow> store" where
  "pushEvent a e st = st\<lparr>eventArrays := (eventArrays st)(a := eventArrays st a @ [e])\<rparr>"

definition pushVariable :: "address \<Rightarrow> variable \<Rightarrow> store \<Rightarrow> store" where
  "pushVariable a v st = st\<lparr>variableArrays := (variableArrays st)(a := variableArrays st a @ [v])\<rparr>"

definition preserveCollectionScriptStore ::
  "string \<Rightarrow> event list \<Rightarrow> collection_object \<times> store \<Rightarrow> collection_object \<times> store" where
  "preserveCollectionScriptStore listenType existingEvents ms =
     (case find (\<lambda>e. listen e = listenType) existingEvents of
        None \<Rightarrow> ms
      | Some existingScript \<Rightarrow>
          (let (a, st1) = (case object_event (fst ms) of
                             None \<Rightarrow> newEventArray (snd ms)
                           | Some a \<Rightarrow> (a, snd ms));
               merged = (fst ms)\<lparr>object_event := Some a\<rparr>
           in case find (\<lambda>e. listen e = listenType) (eventArrays st1 a) of
                None \<Rightarrow> (merged, pushEvent a existingScript st1)
              | Some newScript \<Rightarrow> (merged, st1)))"

definition preserveCollectionVariablesStore ::
  "variable list \<Rightarrow> address option \<Rightarrow> collection_object \<times> store \<Rightarrow> collection_object \<times> store" where
  "preserveCollectionVariablesStore existingVariables newVariable ms =
     (let newVarKeys =
            set (map var_key (case newVariable of None \<Rightarrow> [] | Some a \<Rightarrow> variableArrays (snd ms) a));
          (a, st1) = (case object_variable (fst ms) of
                        None \<Rightarrow> newVariableArray (snd ms)
                      | Some a \<Rightarrow> (a, snd ms));
          merged = (fst ms)\<lparr>object_variable := Some a\<rparr>
      in (merged,
          fold (\<lambda>v st. if var_key v \<notin> newVarKeys then pushVariable a v st else st)
            existingVariables st1))"

definition mergeCollectionsStore ::
  "options \<Rightarrow> collection_object \<Rightarrow> collection \<Rightarrow> store \<Rightarrow> collection_object \<times> store" where
  "mergeCollectionsStore opts newCollection existingCollection st =
     (let existingItemsMap = buildItemsMap (item existingCollection) [] Map.empty;
          mergedItems = mergeItems (object_item newCollection) existingItemsMap [];
          merged0 = newCollection
            \<lparr>object_info := (object_info newCollection)
               \<lparr>postman_id :=
                  (case postman_id (info existingCollection) of
                     Some i \<Rightarrow> if i \<noteq> [] then Some i else postman_id (object_info newCollection)
                   | None \<Rightarrow> postman_id (object_info newCollection))\<rparr>,
             object_item := mergedItems\<rparr>;
          ms1 =
            (case collection_event existingCollection of
               Some evs \<Rightarrow>
                 if preservePrerequest opts
                 then preserveCollectionScriptStore ''prerequest'' evs (merged0, st)
                 else (merged0, st)
             | None \<Rightarrow> (merged0, st));
          ms2 =
            (case collection_event existingCollection of
               Some evs \<Rightarrow>
                 if preserveTests opts
                 then preserveCollectionScriptStore ''test'' evs ms1
                 else ms1
             | None \<Rightarrow> ms1);
          ms3 =
            (case collection_variable existingCollection of
               Some vs \<Rightarrow>
                 if preserveVariables opts
                 then preserveCollectionVariablesStore vs (object_variable newCollection) ms2
                 else ms2
             | None \<Rightarrow> ms2)
      in ms3)"

text \<open>An example store: the event array of the new collection at address 0.\<close>

definition exampleStore :: "event list \<Rightarrow> variable list \<Rightarrow> store" where
  "exampleStore evs vars =
     \<lparr>eventArrays = (\<lambda>a. [])(0 := evs), variableArrays = (\<lambda>a. [])(1 := vars), nextAddress = 2\<rparr>"

definition exampleObject :: collection_object where
  "exampleObject =
     \<lparr>object_info = \<lparr>info_name = ''Pets'', postman_id = Some ''id-2''\<rparr>, object_item = [],
      object_event = Some 0, object_variable = Some 1\<rparr>"

section \<open>The value sanitizer, modelled from the specification\<close>

text \<open>
  \<open>scripts/value-sanitizer.js\<close> is not among the sources; only its tests and its caller
  are. Every definition of this section is written from section 4.1 of the specification.
\<close>

text \<open>
  Modelled from the spec: the JSON values of request and response bodies, which
  \<open>value-sanitizer.js\<close> (missing) walks; the scalars are the tagged variants of section 9.
  Numbers are integers here.
\<close>

datatype json =
    JNull
  | JBool bool
  | JNumber int
  | JString string
  | JArray "json list"
  | JObject "(string \<times> json) list"

text \<open>
  Modelled from the spec: the field descriptor \<open>{type, format?, example?, enum?, minimum?,
  maximum?}\<close> of the Schema Map that \<open>value-sanitizer.js\<close> (missing) builds.
\<close>

record field_schema =
  schema_type :: "string option"
  schema_format :: "string option"
  schema_example :: "json option"
  schema_enum :: "json list option"
  schema_minimum :: "int option"
  schema_maximum :: "int option"

text \<open>
  Modelled from the spec: the Schema Map \<open>{schemaName: {fieldName: descriptor}}\<close> of
  \<open>value-sanitizer.js\<close> (missing), in the order of declaration.
\<close>

type_synonym schema_map = "(string \<times> (string \<times> field_schema) list) list"

text \<open>
  Modelled from the spec: the specification document as far as \<open>buildSchemaMap\<close> of
  \<open>value-sanitizer.js\<close> (missing) reads it, its schema declarations if it has any.
\<close>

record api_specification =
  schemas :: "schema_map option"

text \<open>
  Modelled from the spec: the User Value Map \<open>{fieldDefaults, endpointOverrides}\<close> that
  \<open>resolveValue\<close> of \<open>value-sanitizer.js\<close> (missing) consults; an absent member is the
  empty map.
\<close>

record user_value_map =
  fieldDefaults :: "string \<rightharpoonup> json"
  endpointOverrides :: "string \<rightharpoonup> (string \<rightharpoonup> json)"

text \<open>
  Modelled from the spec: what the specification leaves open about \<open>value-sanitizer.js\<close>
  (missing), taken as parameters: the classifier \<open>isRandomValue\<close> (its vocabulary, patterns
  and thresholds are not given), the tables \<open>FORMAT_DEFAULTS\<close> and \<open>FIELD_NAME_DEFAULTS\<close>,
  and the choice of a number within declared bounds.
\<close>

record sanitizer_parameters =
  isRandomValue :: "json \<Rightarrow> bool"
  FORMAT_DEFAULTS :: "string \<rightharpoonup> json"
  FIELD_NAME_DEFAULTS :: "(string \<times> json) list"
  numberWithin :: "int option \<Rightarrow> int option \<Rightarrow> int"

text \<open>
  Modelled from the spec: a body as \<open>value-sanitizer.js\<close> (missing) meets it: JSON, or
  a text that does not parse.
\<close>

datatype body_text = NotJson string | Json json

text \<open>
  Modelled from the spec: a bound path variable of a URL, whose value
  \<open>value-sanitizer.js\<close> (missing) classifies and replaces.
\<close>

record path_variable =
  path_variable_key :: string
  path_variable_value :: json

text \<open>
  Modelled from the spec: the request of a collection as the sanitizer of
  \<open>value-sanitizer.js\<close> (missing) reads it: the method, the path segments, the bound path
  variables, the body and the bodies of the response examples.
\<close>

record sanitizer_request =
  request_method :: string
  request_path :: "string list"
  request_variables :: "path_variable list"
  request_body :: "body_text option"
  response_bodies :: "body_text option list"

text \<open>
  Modelled from the spec: the nodes that \<open>value-sanitizer.js\<close> (missing) traverses, folders
  and requests, each with its name.
\<close>

datatype sanitizer_item = SFolder string "sanitizer_item list" | SRequest string sanitizer_request

text \<open>
  Modelled from the spec: the collection handed to \<open>sanitizeCollection\<close> of
  \<open>value-sanitizer.js\<close> (missing); \<open>{}\<close> is the collection without an \<open>item\<close> member, and
  \<open>null\<close> is \<open>None\<close> at the call.
\<close>

record sanitizer_collection =
  collection_items :: "sanitizer_item list option"

text \<open>
  Modelled from the spec: upper case for the method token of the endpoint key of
  \<open>value-sanitizer.js\<close> (missing), on ASCII letters.
\<close>

definition toUpperChar :: "char \<Rightarrow> char" where
  "toUpperChar c =
     (case map_of (zip ''abcdefghijklmnopqrstuvwxyz'' ''ABCDEFGHIJKLMNOPQRSTUVWXYZ'') c of
        Some u \<Rightarrow> u
      | None \<Rightarrow> c)"

text \<open>
  Modelled from the spec: lower case for the case-insensitive match of field names in
  \<open>value-sanitizer.js\<close> (missing), on ASCII letters.
\<close>

definition toLowerChar :: "char \<Rightarrow> char" where
  "toLowerChar c =
     (case map_of (zip ''ABCDEFGHIJKLMNOPQRSTUVWXYZ'' ''abcdefghijklmnopqrstuvwxyz'') c of
        Some l \<Rightarrow> l
      | None \<Rightarrow> c)"

text \<open>
  Modelled from the spec: the brace form of a colon-prefixed path-variable segment in the
  endpoint key of \<open>value-sanitizer.js\<close> (missing); any other segment stays.
\<close>

definition braceSegment :: "string \<Rightarrow> string" where
  "braceSegment seg =
     (case seg of
        c # cs \<Rightarrow> if c = CHR '':'' then ''{'' @ cs @ ''}'' else seg
      | [] \<Rightarrow> seg)"

text \<open>
  Modelled from the spec: \<open>buildEndpointKey\<close> of \<open>value-sanitizer.js\<close> (missing): the
  method upper-cased, a colon, and the path with a leading \<open>/\<close>, its segments in brace form
  where colon-prefixed and joined with \<open>/\<close>.
\<close>

definition buildEndpointKey :: "sanitizer_request \<Rightarrow> string" where
  "buildEndpointKey r =
     map toUpperChar (request_method r) @ '':'' @ ''/'' @ join ''/'' (map braceSegment (request_path r))"

text \<open>
  Modelled from the spec: \<open>buildSchemaMap\<close> of \<open>value-sanitizer.js\<close> (missing): the
  schema declarations of the specification, the empty map for an absent specification or
  one without schemas.
\<close>

definition buildSchemaMap :: "api_specification option \<Rightarrow> schema_map" where
  "buildSchemaMap spec =
     (case spec of
        None \<Rightarrow> []
      | Some s \<Rightarrow> (case schemas s of None \<Rightarrow> [] | Some m \<Rightarrow> m))"

text \<open>
  Modelled from the spec: \<open>findFieldSchema\<close> of \<open>value-sanitizer.js\<close> (missing): the
  first descriptor that some schema declares for the field name, or nothing.
\<close>

fun findFieldSchema :: "string \<Rightarrow> schema_map \<Rightarrow> field_schema option" where
  "findFieldSchema fieldName [] = None"
| "findFieldSchema fieldName ((schemaName, properties) # rest) =
     (case map_of properties fieldName of
        Some d \<Rightarrow> Some d
      | None \<Rightarrow> findFieldSchema fieldName rest)"

text \<open>
  Modelled from the spec: the suffix test of step 6 of \<open>resolveValue\<close> in
  \<open>value-sanitizer.js\<close> (missing).
\<close>

definition endsWith :: "string \<Rightarrow> string \<Rightarrow> bool" where
  "endsWith s ending = (length ending \<le> length s \<and> drop (length s - length ending) s = ending)"

text \<open>
  Modelled from the spec: step 6 of \<open>resolveValue\<close> in \<open>value-sanitizer.js\<close> (missing):
  the table entry whose name equals the field name without regard to case, else the first
  entry whose name is a suffix of the field name without regard to case.
\<close>

definition fieldNameDefault :: "(string \<times> json) list \<Rightarrow> string \<Rightarrow> json option" where
  "fieldNameDefault table fieldName =
     (let lower = map toLowerChar fieldName in
      case find (\<lambda>kv. map toLowerChar (fst kv) = lower) table of
        Some kv \<Rightarrow> Some (snd kv)
      | None \<Rightarrow>
          (case find (\<lambda>kv. endsWith lower (map toLowerChar (fst kv))) table of
             Some kv \<Rightarrow> Some (snd kv)
           | None \<Rightarrow> None))"

text \<open>
  Modelled from the spec: step 7 of \<open>resolveValue\<close> in \<open>value-sanitizer.js\<close> (missing):
  a number within the declared bounds for the types \<open>integer\<close> and \<open>number\<close>, \<open>true\<close> for
  \<open>boolean\<close>, otherwise nothing.
\<close>

definition typeFallback :: "sanitizer_parameters \<Rightarrow> field_schema \<Rightarrow> json option" where
  "typeFallback params d =
     (if (schema_type d = Some ''integer'' \<or> schema_type d = Some ''number'')
         \<and> (schema_minimum d \<noteq> None \<or> schema_maximum d \<noteq> None)
      then Some (JNumber (numberWithin params (schema_minimum d) (schema_maximum d)))
      else if schema_type d = Some ''boolean'' then Some (JBool True)
      else None)"

text \<open>
  Modelled from the spec: the part of the chain of \<open>resolveValue\<close> in
  \<open>value-sanitizer.js\<close> (missing) that does not look at the User Value Map, steps 3 to 7:
  the schema's example, its first enum value, the format default, the field-name default,
  the type fallback. An absent descriptor has no member.
\<close>

definition builtinValue :: "sanitizer_parameters \<Rightarrow> string \<Rightarrow> field_schema option \<Rightarrow> json option" where
  "builtinValue params fieldName fieldSchema =
     (let d = (case fieldSchema of
                 Some d \<Rightarrow> d
               | None \<Rightarrow> \<lparr>schema_type = None, schema_format = None, schema_example = None,
                           schema_enum = None, schema_minimum = None, schema_maximum = None\<rparr>)
      in case schema_example d of
           Some v \<Rightarrow> Some v
         | None \<Rightarrow>
             (case schema_enum d of
                Some (v # vs) \<Rightarrow> Some v
              | _ \<Rightarrow>
                  (case (case schema_format d of Some f \<Rightarrow> FORMAT_DEFAULTS params f | None \<Rightarrow> None) of
                     Some v \<Rightarrow> Some v
                   | None \<Rightarrow>
                       (case fieldNameDefault (FIELD_NAME_DEFAULTS params) fieldName of
                          Some v \<Rightarrow> Some v
                        | None \<Rightarrow> typeFallback params d))))"

text \<open>
  Modelled from the spec: \<open>resolveValue(fieldName, fieldSchema, userValueMap?,
  endpointKey?)\<close> of \<open>value-sanitizer.js\<close> (missing), first match wins: the endpoint
  override, if the endpoint key and an override exist; the field default; then steps 3 to 7.
  \<open>None\<close> is \<open>null\<close>.
\<close>

definition resolveValue ::
  "sanitizer_parameters \<Rightarrow> string \<Rightarrow> field_schema option \<Rightarrow> user_value_map option \<Rightarrow>
   string option \<Rightarrow> json option" where
  "resolveValue params fieldName fieldSchema userValueMap endpointKey =
     (case (case userValueMap of
              Some u \<Rightarrow>
                (case endpointKey of
                   Some k \<Rightarrow>
                     (case endpointOverrides u k of
                        Some overrides \<Rightarrow> overrides fieldName
                      | None \<Rightarrow> None)
                 | None \<Rightarrow> None)
            | None \<Rightarrow> None) of
        Some v \<Rightarrow> Some v
      | None \<Rightarrow>
          (case (case userValueMap of Some u \<Rightarrow> fieldDefaults u fieldName | None \<Rightarrow> None) of
             Some v \<Rightarrow> Some v
           | None \<Rightarrow> builtinValue params fieldName fieldSchema))"

text \<open>
  Modelled from the spec: steps 2 to 4 of the sanitizer contract in
  \<open>value-sanitizer.js\<close> (missing) for one scalar: a value classified as authentic stays;
  a value classified as random is replaced by the resolved value, and stays when nothing is
  resolved.
\<close>

definition sanitizeLeaf ::
  "sanitizer_parameters \<Rightarrow> schema_map \<Rightarrow> user_value_map option \<Rightarrow> string \<Rightarrow> string \<Rightarrow> json \<Rightarrow> json" where
  "sanitizeLeaf params schemaMap userValueMap endpointKey fieldName v =
     (if isRandomValue params v then
        (case resolveValue params fieldName (findFieldSchema fieldName schemaMap) userValueMap
                (Some endpointKey) of
           Some replacement \<Rightarrow> replacement
         | None \<Rightarrow> v)
      else v)"

text \<open>
  Modelled from the spec: the walk of \<open>value-sanitizer.js\<close> (missing) over a body, through
  nested objects and arrays to every scalar; a scalar is visited under the name of the
  member that holds it (an array element under the name of the array).
\<close>

fun sanitizeJson :: "(string \<Rightarrow> json \<Rightarrow> json) \<Rightarrow> string \<Rightarrow> json \<Rightarrow> json" where
  "sanitizeJson visit fieldName (JObject members) =
     JObject (map (\<lambda>kv. (fst kv, sanitizeJson visit (fst kv) (snd kv))) members)"
| "sanitizeJson visit fieldName (JArray elements) =
     JArray (map (sanitizeJson visit fieldName) elements)"
| "sanitizeJson visit fieldName v = visit fieldName v"

text \<open>
  Modelled from the spec: a body that is not JSON is left untouched by
  \<open>value-sanitizer.js\<close> (missing).
\<close>

fun sanitizeBody :: "(string \<Rightarrow> json \<Rightarrow> json) \<Rightarrow> body_text \<Rightarrow> body_text" where
  "sanitizeBody visit (NotJson s) = NotJson s"
| "sanitizeBody visit (Json j) = Json (sanitizeJson visit [] j)"

text \<open>
  Modelled from the spec: what \<open>value-sanitizer.js\<close> (missing) does to a request: the
  endpoint key is computed, then the body, every response body and every path-variable
  value is sanitized.
\<close>

definition sanitizeRequest ::
  "sanitizer_parameters \<Rightarrow> schema_map \<Rightarrow> user_value_map option \<Rightarrow> sanitizer_request \<Rightarrow>
   sanitizer_request" where
  "sanitizeRequest params schemaMap userValueMap r =
     (let visit = sanitizeLeaf params schemaMap userValueMap (buildEndpointKey r) in
      r\<lparr>request_variables :=
          map (\<lambda>pv. pv\<lparr>path_variable_value := visit (path_variable_key pv) (path_variable_value pv)\<rparr>)
            (request_variables r),
        request_body := map_option (sanitizeBody visit) (request_body r),
        response_bodies := map (map_option (sanitizeBody visit)) (response_bodies r)\<rparr>)"

text \<open>
  Modelled from the spec: the traversal of every folder and request by
  \<open>value-sanitizer.js\<close> (missing).
\<close>

fun sanitizeItem ::
  "sanitizer_parameters \<Rightarrow> schema_map \<Rightarrow> user_value_map option \<Rightarrow> sanitizer_item \<Rightarrow>
   sanitizer_item" where
  "sanitizeItem params schemaMap userValueMap (SFolder n children) =
     SFolder n (map (sanitizeItem params schemaMap userValueMap) children)"
| "sanitizeItem params schemaMap userValueMap (SRequest n r) =
     SRequest n (sanitizeRequest params schemaMap userValueMap r)"

text \<open>
  Modelled from the spec: \<open>sanitize(collection, specification, userValueMap?)\<close>, exported
  as \<open>sanitizeCollection\<close> by \<open>value-sanitizer.js\<close> (missing): a \<open>null\<close> collection and
  a collection without items are returned unchanged.
\<close>

definition sanitizeCollection ::
  "sanitizer_parameters \<Rightarrow> sanitizer_collection option \<Rightarrow> api_specification option \<Rightarrow>
   user_value_map option \<Rightarrow> sanitizer_collection option" where
  "sanitizeCollection params collection spec userValueMap =
     (case collection of
        None \<Rightarrow> None
      | Some c \<Rightarrow>
          (case collection_items c of
             None \<Rightarrow> Some c
           | Some items \<Rightarrow>
               Some (c\<lparr>collection_items :=
                         Some (map (sanitizeItem params (buildSchemaMap spec) userValueMap) items)\<rparr>)))"

subsection \<open>Clean collections and example values of the sanitizer\<close>

text \<open>
  A collection is clean for a classifier when the classifier flags no scalar of a JSON
  request body or response body and no path-variable value. A body that is not JSON has no
  scalars.
\<close>

fun cleanJson :: "(json \<Rightarrow> bool) \<Rightarrow> json \<Rightarrow> bool" where
  "cleanJson isRandom (JObject members) = list_all (\<lambda>kv. cleanJson isRandom (snd kv)) members"
| "cleanJson isRandom (JArray elements) = list_all (cleanJson isRandom) elements"
| "cleanJson isRandom v = (\<not> isRandom v)"

fun cleanBody :: "(json \<Rightarrow> bool) \<Rightarrow> body_text option \<Rightarrow> bool" where
  "cleanBody isRandom None = True"
| "cleanBody isRandom (Some (NotJson s)) = True"
| "cleanBody isRandom (Some (Json j)) = cleanJson isRandom j"

definition cleanRequest :: "(json \<Rightarrow> bool) \<Rightarrow> sanitizer_request \<Rightarrow> bool" where
  "cleanRequest isRandom r =
     (list_all (\<lambda>pv. \<not> isRandom (path_variable_value pv)) (request_variables r)
      \<and> cleanBody isRandom (request_body r)
      \<and> list_all (cleanBody isRandom) (response_bodies r))"

fun cleanItem :: "(json \<Rightarrow> bool) \<Rightarrow> sanitizer_item \<Rightarrow> bool" where
  "cleanItem isRandom (SFolder n children) = list_all (cleanItem isRandom) children"
| "cleanItem isRandom (SRequest n r) = cleanRequest isRandom r"

definition cleanCollection :: "(json \<Rightarrow> bool) \<Rightarrow> sanitizer_collection \<Rightarrow> bool" where
  "cleanCollection isRandom c =
     (case collection_items c of None \<Rightarrow> True | Some items \<Rightarrow> list_all (cleanItem isRandom) items)"

text \<open>
  An instance of the parameters for the examples: a classifier that flags two placeholders
  of the tests, and small tables.
\<close>

definition exampleParameters :: sanitizer_parameters where
  "exampleParameters =
     \<lparr>isRandomValue = (\<lambda>v. v = JString ''aliquip'' \<or> v = JNumber 78171233),
      FORMAT_DEFAULTS = [''email'' \<mapsto> JString ''user@example.com''],
      FIELD_NAME_DEFAULTS = [(''email'', JString ''user@example.com''),
                             (''name'', JString ''John Doe''), (''age'', JNumber 25)],
      numberWithin = (\<lambda>lo hi. case lo of Some l \<Rightarrow> l | None \<Rightarrow> (case hi of Some h \<Rightarrow> h | None \<Rightarrow> 0))\<rparr>"

definition exampleUserValueMap :: user_value_map where
  "exampleUserValueMap =
     \<lparr>fieldDefaults = [''name'' \<mapsto> JString ''Default''],
      endpointOverrides = [''POST:/pets'' \<mapsto> [''name'' \<mapsto> JString ''Override'']]\<rparr>"

definition exampleSanitizerCollection :: sanitizer_collection where
  "exampleSanitizerCollection =
     \<lparr>collection_items = Some
        [SFolder ''Pets''
           [SRequest ''Create Pet''
              \<lparr>request_method = ''POST'', request_path = [''pets''],
               request_variables = [],
               request_body = Some (Json (JObject [(''name'', JString ''Buddy''), (''age'', JNumber 3)])),
               response_bodies = [Some (Json (JArray [JObject [(''name'', JString ''Buddy'')]])),
                                  Some (NotJson ''<html>''), None]\<rparr>,
            SRequest ''Get Pet''
              \<lparr>request_method = ''GET'', request_path = [''pets'', '':petId''],
               request_variables =
                 [\<lparr>path_variable_key = ''petId'',
                   path_variable_value = JString ''550e8400-e29b-41d4-a716-446655440000''\<rparr>],
               request_body = None, response_bodies = []\<rparr>]]\<rparr>"

section \<open>Endpoint keys of the merger\<close>

text \<open>
  C1 (as amended). For a request whose URL path is an array of segments,
  \<open>generateItemKey\<close> returns the method token as stored (\<open>GET\<close> when the method is
  not a string), a colon, and the segments joined with \<open>/\<close>: there is no leading \<open>/\<close>
  and a colon-prefixed segment stays as it is. For method \<open>GET\<close> and path
  \<open>['pets', ':petId']\<close> the key is \<open>GET:pets/:petId\<close>, not the normalized
  \<open>GET:/pets/{petId}\<close>.
\<close>

theorem generateItemKey_path_array:
  "generateItemKey
     \<lparr>name = n, request = Some \<lparr>http_method = m, url = Some (UrlObject rw (Some (PathArray segs))),
                                 body = b\<rparr>, event = evs, response = rs\<rparr> itemPath
   = (case m of Some t \<Rightarrow> t | None \<Rightarrow> ''GET'') @ '':'' @ join ''/'' segs
   \<and> generateItemKey
     \<lparr>name = n, request = Some \<lparr>http_method = Some ''GET'',
                                 url = Some (UrlObject rw (Some (PathArray [''pets'', '':petId'']))),
                                 body = b\<rparr>, event = evs, response = rs\<rparr> itemPath
   = ''GET:pets/:petId''
   \<and> generateItemKey
     \<lparr>name = n, request = Some \<lparr>http_method = Some ''GET'',
                                 url = Some (UrlObject rw (Some (PathArray [''pets'', '':petId'']))),
                                 body = b\<rparr>, event = evs, response = rs\<rparr> itemPath
   \<noteq> ''GET:/pets/{petId}''"
  by (simp add: generateItemKey_def)

text \<open>
  C1 as the specification states it fails for the merger: for method \<open>GET\<close> and path
  \<open>['pets', ':petId']\<close> the key of \<open>generateItemKey\<close> is not \<open>GET:/pets/{petId}\<close>.
\<close>

theorem generateItemKey_not_normalized:
  "generateItemKey
     \<lparr>name = ''Get Pet'',
      request = Some \<lparr>http_method = Some ''GET'',
                      url = Some (UrlObject None (Some (PathArray [''pets'', '':petId'']))),
                      body = None\<rparr>,
      event = None, response = []\<rparr> ''Get Pet''
   \<noteq> ''GET:/pets/{petId}''"
  by (simp add: generateItemKey_def)

text \<open>The key of a leaf that has a request contains a colon.\<close>

lemma generateItemKey_has_colon:
  "request it = Some r \<Longrightarrow> CHR '':'' \<in> set (generateItemKey it itemPath)"
  by (simp add: generateItemKey_def)

section \<open>First run: no existing collection\<close>

text \<open>
  C8. When the file of the existing collection is absent, \<open>merge\<close> returns the new
  collection as it was read, whatever the options.
\<close>

theorem merge_without_existing:
  "merge opts (Some newCollection) None = Inr newCollection"
  by (simp add: merge_def)

section \<open>Merging a request with its previous version\<close>

subsection \<open>The first event of a listen type\<close>

lemma findIndex_None_iff: "findIndex p xs = None \<longleftrightarrow> (\<forall>x\<in>set xs. \<not> p x)"
  by (induction xs) (auto split: option.splits)

lemma findIndex_Some_first:
  "findIndex p xs = Some i \<Longrightarrow> i < length xs \<and> p (xs ! i) \<and> (\<forall>j<i. \<not> p (xs ! j))"
proof (induction xs arbitrary: i)
  case Nil
  then show ?case by simp
next
  case (Cons x xs)
  show ?case
  proof (cases "p x")
    case True
    with Cons.prems show ?thesis by simp
  next
    case False
    with Cons.prems obtain k where k: "findIndex p xs = Some k" "i = Suc k"
      by (auto split: option.splits)
    from Cons.IH[OF k(1)] False k(2) show ?thesis
      by (auto simp: nth_Cons less_Suc_eq_0_disj split: nat.splits)
  qed
qed

lemma findIndex_decomp:
  "(\<forall>e\<in>set pre. \<not> p e) \<Longrightarrow> p x \<Longrightarrow> findIndex p (pre @ x # post) = Some (length pre)"
  by (induction pre) auto

subsection \<open>One step of the loop over the existing events\<close>

lemma mergeEvent_append:
  "hasNonEmptyScript ex \<Longrightarrow> (\<forall>e\<in>set es. listen e \<noteq> listen ex) \<Longrightarrow> mergeEvent es ex = es @ [ex]"
  using findIndex_None_iff[of "\<lambda>e. listen e = listen ex" es]
  by (simp add: mergeEvent_def)

lemma mergeEvent_replace:
  "hasNonEmptyScript ex \<Longrightarrow> (\<forall>e'\<in>set pre. listen e' \<noteq> listen ex) \<Longrightarrow> listen e = listen ex \<Longrightarrow>
   \<not> hasNonEmptyScript e \<Longrightarrow> mergeEvent (pre @ e # post) ex = pre @ ex # post"
  using findIndex_decomp[of pre "\<lambda>e. listen e = listen ex" e post]
  by (simp add: mergeEvent_def)

lemma mergeEvent_keep:
  "hasNonEmptyScript ex \<Longrightarrow> (\<forall>e'\<in>set pre. listen e' \<noteq> listen ex) \<Longrightarrow> listen e = listen ex \<Longrightarrow>
   hasNonEmptyScript e \<Longrightarrow> mergeEvent (pre @ e # post) ex = pre @ e # post"
  using findIndex_decomp[of pre "\<lambda>e. listen e = listen ex" e post]
  by (simp add: mergeEvent_def)

lemma mergeEvent_empty: "\<not> hasNonEmptyScript ex \<Longrightarrow> mergeEvent es ex = es"
  by (simp add: mergeEvent_def)

lemma mergeEvent_length: "length es \<le> length (mergeEvent es ex)"
  by (simp add: mergeEvent_def split: option.splits)

lemma mergeEvent_nth_nonempty:
  "i < length es \<Longrightarrow> hasNonEmptyScript (es ! i) \<Longrightarrow> mergeEvent es ex ! i = es ! i"
proof -
  assume i: "i < length es" and ne: "hasNonEmptyScript (es ! i)"
  have "es[k := ex] ! i = es ! i" if "\<not> hasNonEmptyScript (es ! k)" for k
  proof -
    from that ne have "k \<noteq> i" by auto
    then show ?thesis by simp
  qed
  with i show ?thesis
    by (simp add: mergeEvent_def nth_append split: option.splits)
qed

lemma mergeEvent_origin:
  "e \<in> set (mergeEvent es ex) \<Longrightarrow> e \<in> set es \<or> (e = ex \<and> hasNonEmptyScript ex)"
  by (auto simp: mergeEvent_def split: option.splits if_splits dest: set_update_subset_insert[THEN subsetD])

lemma mergeEvent_provides:
  assumes "hasNonEmptyScript ex"
  shows "\<exists>i<length (mergeEvent es ex). listen (mergeEvent es ex ! i) = listen ex \<and> hasNonEmptyScript (mergeEvent es ex ! i)"
proof (cases "findIndex (\<lambda>e. listen e = listen ex) es")
  case None
  with assms have "mergeEvent es ex = es @ [ex]" by (simp add: mergeEvent_def)
  with assms show ?thesis by (auto intro!: exI[of _ "length es"])
next
  case (Some i)
  from findIndex_Some_first[OF Some] have i: "i < length es" "listen (es ! i) = listen ex" by auto
  show ?thesis
  proof (cases "hasNonEmptyScript (es ! i)")
    case True
    with Some assms have "mergeEvent es ex = es" by (simp add: mergeEvent_def)
    with True i show ?thesis by auto
  next
    case False
    with Some assms have "mergeEvent es ex = es[i := ex]" by (simp add: mergeEvent_def)
    with assms i show ?thesis by (auto intro!: exI[of _ i])
  qed
qed

subsection \<open>The whole loop\<close>

lemma foldl_mergeEvent_length: "length es \<le> length (foldl mergeEvent es exs)"
proof (induction exs arbitrary: es)
  case Nil
  show ?case by simp
next
  case (Cons ex exs)
  have "length es \<le> length (mergeEvent es ex)" by (rule mergeEvent_length)
  also have "\<dots> \<le> length (foldl mergeEvent (mergeEvent es ex) exs)" by (rule Cons.IH)
  finally show ?case by simp
qed

lemma foldl_mergeEvent_nth_nonempty:
  "i < length es \<Longrightarrow> hasNonEmptyScript (es ! i) \<Longrightarrow> foldl mergeEvent es exs ! i = es ! i"
proof (induction exs arbitrary: es)
  case Nil
  show ?case by simp
next
  case (Cons ex exs)
  have len: "i < length (mergeEvent es ex)"
    using Cons.prems(1) mergeEvent_length[of es ex] by simp
  have same: "mergeEvent es ex ! i = es ! i"
    using Cons.prems by (rule mergeEvent_nth_nonempty)
  with Cons.prems(2) have "hasNonEmptyScript (mergeEvent es ex ! i)" by simp
  from Cons.IH[OF len this] same show ?case by simp
qed

lemma foldl_mergeEvent_origin:
  "e \<in> set (foldl mergeEvent es exs) \<Longrightarrow> e \<in> set es \<or> (e \<in> set exs \<and> hasNonEmptyScript e)"
proof (induction exs arbitrary: es)
  case Nil
  then show ?case by simp
next
  case (Cons ex exs)
  from Cons.IH[of "mergeEvent es ex"] Cons.prems
  have "e \<in> set (mergeEvent es ex) \<or> (e \<in> set exs \<and> hasNonEmptyScript e)" by simp
  then show ?case using mergeEvent_origin[of e es ex] by auto
qed

lemma foldl_mergeEvent_provides:
  "ex \<in> set exs \<Longrightarrow> hasNonEmptyScript ex \<Longrightarrow>
   \<exists>e\<in>set (foldl mergeEvent es exs). listen e = listen ex \<and> hasNonEmptyScript e"
proof (induction exs arbitrary: es)
  case Nil
  then show ?case by simp
next
  case (Cons x exs)
  show ?case
  proof (cases "ex \<in> set exs")
    case True
    from Cons.IH[OF True Cons.prems(2), of "mergeEvent es x"] show ?thesis by simp
  next
    case False
    with Cons.prems have "x = ex" by simp
    from mergeEvent_provides[OF Cons.prems(2), of es] obtain i where
      i: "i < length (mergeEvent es ex)" "listen (mergeEvent es ex ! i) = listen ex"
         "hasNonEmptyScript (mergeEvent es ex ! i)" by blast
    have "foldl mergeEvent (mergeEvent es ex) exs ! i = mergeEvent es ex ! i"
      using i(1,3) by (rule foldl_mergeEvent_nth_nonempty)
    moreover have "i < length (foldl mergeEvent (mergeEvent es ex) exs)"
      using i(1) foldl_mergeEvent_length[of "mergeEvent es ex" exs] by simp
    ultimately have "mergeEvent es ex ! i \<in> set (foldl mergeEvent (mergeEvent es ex) exs)"
      using nth_mem by metis
    with i(2,3) \<open>x = ex\<close> show ?thesis by auto
  qed
qed

text \<open>
  C2. A candidate request \<open>c\<close> whose key is in the index of the previous collection is
  replaced by \<open>mergeRequest c p\<close>, \<open>p\<close> the previous request of that key. The merged
  request has the name, request and responses of the candidate. Its event array is the
  candidate's (an absent array read as empty) after one step per previous event, in order:
  a previous event whose script is non-empty is appended when the array has no event of its
  listen type; otherwise the first event of that type in the array (the only one when listen
  types are not repeated) is replaced by it when its script is empty and kept when its
  script is non-empty; a previous event whose script is empty changes nothing. So every
  candidate event with a non-empty script stays at its index, every event of the result is
  the candidate's or a previous event with a non-empty script, and every previous event with
  a non-empty script finds an event of its listen type with a non-empty script in the
  result.
\<close>

theorem mergeRequest_preserves_scripts:
  "(existingItemsMap (generateItemKey c (itemPathOf parentPath (name c))) = Some (p, q) \<longrightarrow>
      mergeItem existingItemsMap parentPath (Leaf c) = Leaf (mergeRequest c p))
   \<and> name (mergeRequest c p) = name c
   \<and> request (mergeRequest c p) = request c
   \<and> response (mergeRequest c p) = response c
   \<and> event (mergeRequest c p) =
       (if eventsOf p = [] then event c
        else Some (foldl mergeEvent (eventsOf c) (eventsOf p)))
   \<and> (\<forall>es ex. hasNonEmptyScript ex \<and> (\<forall>e\<in>set es. listen e \<noteq> listen ex) \<longrightarrow>
         mergeEvent es ex = es @ [ex])
   \<and> (\<forall>pre e post ex.
         hasNonEmptyScript ex \<and> (\<forall>e'\<in>set pre. listen e' \<noteq> listen ex) \<and> listen e = listen ex \<longrightarrow>
         mergeEvent (pre @ e # post) ex = pre @ (if hasNonEmptyScript e then e else ex) # post)
   \<and> (\<forall>es ex. \<not> hasNonEmptyScript ex \<longrightarrow> mergeEvent es ex = es)
   \<and> (\<forall>i<length (eventsOf c). hasNonEmptyScript (eventsOf c ! i) \<longrightarrow>
         eventsOf (mergeRequest c p) ! i = eventsOf c ! i)
   \<and> (\<forall>e\<in>set (eventsOf (mergeRequest c p)).
         e \<in> set (eventsOf c) \<or> (e \<in> set (eventsOf p) \<and> hasNonEmptyScript e))
   \<and> (\<forall>ex\<in>set (eventsOf p). hasNonEmptyScript ex \<longrightarrow>
         (\<exists>e\<in>set (eventsOf (mergeRequest c p)). listen e = listen ex \<and> hasNonEmptyScript e))"
proof -
  let ?m = "mergeRequest c p"
  have ev: "event ?m =
      (if eventsOf p = [] then event c else Some (foldl mergeEvent (eventsOf c) (eventsOf p)))"
    by (simp add: mergeRequest_def eventsOf_def split: option.splits)
  have evs: "eventsOf ?m = foldl mergeEvent (eventsOf c) (eventsOf p)"
  proof (cases "eventsOf p = []")
    case True
    with ev have "event ?m = event c" by simp
    with True show ?thesis by (simp add: eventsOf_def)
  next
    case False
    with ev show ?thesis by (simp add: eventsOf_def[of ?m])
  qed
  have lookup: "existingItemsMap (generateItemKey c (itemPathOf parentPath (name c))) = Some (p, q) \<longrightarrow>
      mergeItem existingItemsMap parentPath (Leaf c) = Leaf ?m"
    by simp
  have fields: "name ?m = name c" "request ?m = request c" "response ?m = response c"
    by (simp_all add: mergeRequest_def split: option.splits)
  have step1: "\<forall>es ex. hasNonEmptyScript ex \<and> (\<forall>e\<in>set es. listen e \<noteq> listen ex) \<longrightarrow>
         mergeEvent es ex = es @ [ex]"
    using mergeEvent_append by blast
  have step2: "\<forall>pre e post ex.
         hasNonEmptyScript ex \<and> (\<forall>e'\<in>set pre. listen e' \<noteq> listen ex) \<and> listen e = listen ex \<longrightarrow>
         mergeEvent (pre @ e # post) ex = pre @ (if hasNonEmptyScript e then e else ex) # post"
    using mergeEvent_replace mergeEvent_keep by simp
  have step3: "\<forall>es ex. \<not> hasNonEmptyScript ex \<longrightarrow> mergeEvent es ex = es"
    using mergeEvent_empty by blast
  have kept: "\<forall>i<length (eventsOf c). hasNonEmptyScript (eventsOf c ! i) \<longrightarrow>
         eventsOf ?m ! i = eventsOf c ! i"
    by (simp add: evs foldl_mergeEvent_nth_nonempty)
  have origin: "\<forall>e\<in>set (eventsOf ?m).
         e \<in> set (eventsOf c) \<or> (e \<in> set (eventsOf p) \<and> hasNonEmptyScript e)"
    using foldl_mergeEvent_origin by (simp add: evs)
  have provides: "\<forall>ex\<in>set (eventsOf p). hasNonEmptyScript ex \<longrightarrow>
         (\<exists>e\<in>set (eventsOf ?m). listen e = listen ex \<and> hasNonEmptyScript e)"
    using foldl_mergeEvent_provides by (simp add: evs)
  show ?thesis
    by (intro conjI lookup fields ev step1 step2 step3 kept origin provides)
qed

text \<open>
  C2 at two examples. A candidate with an empty \<open>test\<close> script meets a previous request
  with non-empty \<open>prerequest\<close> and \<open>test\<close> scripts: the \<open>test\<close> event is replaced and the
  \<open>prerequest\<close> event appended. A candidate with a non-empty \<open>test\<close> script meets a
  previous request with another non-empty \<open>test\<close> script and an empty \<open>prerequest\<close> script:
  the candidate is returned as it is.
\<close>

theorem mergeRequest_preserves_scripts_witness:
  "buildItemsMap
     [Leaf (exampleRequest ''Old''
        (Some [exampleEvent ''prerequest'' [''console.log(1);''],
               exampleEvent ''test'' [''pm.test(1);'']]))] [] Map.empty
     (generateItemKey (exampleRequest ''Get Pet'' (Some [exampleEvent ''test'' ['''', ''  '']]))
        (itemPathOf [] (name (exampleRequest ''Get Pet'' (Some [exampleEvent ''test'' ['''', ''  '']])))))
   = Some (exampleRequest ''Old''
        (Some [exampleEvent ''prerequest'' [''console.log(1);''],
               exampleEvent ''test'' [''pm.test(1);'']]), ''Old'')
   \<and> hasNonEmptyScript (exampleEvent ''prerequest'' [''console.log(1);''])
   \<and> hasNonEmptyScript (exampleEvent ''test'' [''pm.test(1);''])
   \<and> \<not> hasNonEmptyScript (exampleEvent ''test'' ['''', ''  ''])
   \<and> mergeItem
        (buildItemsMap
          [Leaf (exampleRequest ''Old''
             (Some [exampleEvent ''prerequest'' [''console.log(1);''],
                    exampleEvent ''test'' [''pm.test(1);'']]))] [] Map.empty)
        []
        (Leaf (exampleRequest ''Get Pet'' (Some [exampleEvent ''test'' ['''', ''  '']])))
      = Leaf (exampleRequest ''Get Pet''
          (Some [exampleEvent ''test'' [''pm.test(1);''],
                 exampleEvent ''prerequest'' [''console.log(1);'']]))
   \<and> mergeRequest
        (exampleRequest ''Get Pet'' (Some [exampleEvent ''test'' [''pm.expect(2);'']]))
        (exampleRequest ''Old''
          (Some [exampleEvent ''test'' [''pm.test(1);''], exampleEvent ''prerequest'' ['' '']]))
      = exampleRequest ''Get Pet'' (Some [exampleEvent ''test'' [''pm.expect(2);'']])"
  using mergeRequest_preserves_scripts
    [of "buildItemsMap
           [Leaf (exampleRequest ''Old''
              (Some [exampleEvent ''prerequest'' [''console.log(1);''],
                     exampleEvent ''test'' [''pm.test(1);'']]))] [] Map.empty"
        "exampleRequest ''Get Pet'' (Some [exampleEvent ''test'' ['''', ''  '']])"
        "[]"
        "exampleRequest ''Old''
           (Some [exampleEvent ''prerequest'' [''console.log(1);''],
                  exampleEvent ''test'' [''pm.test(1);'']])"
        "''Old''"]
  by (simp add: buildItemsMap_def generateItemKey_def itemPathOf_def exampleRequest_def
      exampleEvent_def hasNonEmptyScript_def trim_def isWhiteSpace_def mergeRequest_def
      mergeEvent_def eventsOf_def)

section \<open>Scripts at the root of the collection\<close>

lemma find_listen_Some: "find (\<lambda>e. listen e = l) es = Some x \<Longrightarrow> listen x = l"
  by (induction es) (auto split: if_splits)

lemma find_listen_None: "find (\<lambda>e. listen e = l) es = None \<longleftrightarrow> \<not> list_ex (\<lambda>e. listen e = l) es"
  by (induction es) auto

lemma filter_listen_absent:
  "\<not> list_ex (\<lambda>e. listen e = l) es \<Longrightarrow> filter (\<lambda>e. listen e = l) es = []"
  by (induction es) auto

lemma missingScript_present:
  "list_ex (\<lambda>e. listen e = l) nevs \<Longrightarrow> missingScript l pevs nevs = []"
  by (simp add: missingScript_def split: option.splits)

lemma missingScript_absent:
  "\<not> list_ex (\<lambda>e. listen e = l) nevs \<Longrightarrow> find (\<lambda>e. listen e = l) pevs = Some ex \<Longrightarrow>
   missingScript l pevs nevs = [ex]"
  by (simp add: missingScript_def)

lemma missingScript_listen: "e \<in> set (missingScript l pevs nevs) \<Longrightarrow> listen e = l"
  by (cases "find (\<lambda>e. listen e = l) pevs")
     (auto simp: missingScript_def dest: find_listen_Some split: if_splits)

lemma missingScript_other:
  assumes "l \<noteq> l'"
  shows "filter (\<lambda>e. listen e = l') (missingScript l pevs nevs) = []"
    and "list_ex (\<lambda>e. listen e = l') (nevs' @ missingScript l pevs nevs) = list_ex (\<lambda>e. listen e = l') nevs'"
  using assms missingScript_listen[of _ l pevs nevs]
  by (auto simp: filter_empty_conv list_ex_iff)

lemma preserveCollectionScript_events:
  "(case preserveCollectionScript l pevs mev of None \<Rightarrow> [] | Some es \<Rightarrow> es) =
     (case mev of None \<Rightarrow> [] | Some es \<Rightarrow> es) @
     missingScript l pevs (case mev of None \<Rightarrow> [] | Some es \<Rightarrow> es)"
proof (cases "find (\<lambda>e. listen e = l) pevs")
  case None
  then show ?thesis by (simp add: preserveCollectionScript_def missingScript_def)
next
  case (Some ex)
  let ?evs = "case mev of None \<Rightarrow> [] | Some es \<Rightarrow> es"
  show ?thesis
  proof (cases "find (\<lambda>e. listen e = l) ?evs")
    case None
    with find_listen_None[of l ?evs] have "\<not> list_ex (\<lambda>e. listen e = l) ?evs" by simp
    with None Some show ?thesis
      by (simp add: preserveCollectionScript_def missingScript_absent)
  next
    case (Some newScript)
    with find_listen_None[of l ?evs] have "list_ex (\<lambda>e. listen e = l) ?evs" by simp
    with Some \<open>find (\<lambda>e. listen e = l) pevs = Some ex\<close> show ?thesis
      by (simp add: preserveCollectionScript_def missingScript_present)
  qed
qed

lemma mergeCollections_events:
  assumes "collection_event existing = Some pevs"
  shows "collectionEventsOf (mergeCollections opts new existing) =
     collectionEventsOf new @
     (if preservePrerequest opts then missingScript ''prerequest'' pevs (collectionEventsOf new) else []) @
     (if preserveTests opts then missingScript ''test'' pevs (collectionEventsOf new) else [])"
proof -
  define rd :: "event list option \<Rightarrow> event list"
    where "rd mev = (case mev of None \<Rightarrow> [] | Some es \<Rightarrow> es)" for mev
  have step: "rd (preserveCollectionScript l pevs mev) = rd mev @ missingScript l pevs (rd mev)" for l mev
    unfolding rd_def by (rule preserveCollectionScript_events)
  have other: "missingScript ''test'' pevs (es @ missingScript ''prerequest'' pevs es)
      = missingScript ''test'' pevs es" for es
  proof -
    have eq: "list_ex (\<lambda>e. listen e = ''test'') (es @ missingScript ''prerequest'' pevs es)
        = list_ex (\<lambda>e. listen e = ''test'') es"
      by (rule missingScript_other(2)) simp
    show ?thesis
      unfolding missingScript_def[of "''test''"] eq by (rule refl)
  qed
  have ev: "collection_event (mergeCollections opts new existing) =
      (let m1 = (if preservePrerequest opts
                 then preserveCollectionScript ''prerequest'' pevs (collection_event new)
                 else collection_event new)
       in if preserveTests opts then preserveCollectionScript ''test'' pevs m1 else m1)"
    using assms by (simp add: mergeCollections_def Let_def split: option.splits)
  have "rd (collection_event (mergeCollections opts new existing)) =
      rd (collection_event new) @
      (if preservePrerequest opts then missingScript ''prerequest'' pevs (rd (collection_event new)) else []) @
      (if preserveTests opts then missingScript ''test'' pevs (rd (collection_event new)) else [])"
    unfolding ev Let_def by (simp add: step other)
  then show ?thesis
    unfolding rd_def collectionEventsOf_def .
qed

text \<open>
  C10. Let the existing collection have an event array whose first event of listen type
  \<open>l\<close> is \<open>ex\<close>, where \<open>l\<close> is \<open>prerequest\<close> or \<open>test\<close> and the option for that type is
  set. The events of the new collection stay where they are at the front of the merged
  array, none of them replaced. If the new collection has an event of type \<open>l\<close>, whatever
  its script, the merged collection has exactly the new collection's events of that type;
  if it has none, \<open>ex\<close> is the one event of type \<open>l\<close> of the merged collection, whatever
  the script of \<open>ex\<close>.
\<close>

theorem collection_script_appended_only_when_absent:
  assumes "collection_event existing = Some pevs"
    and "(l = ''prerequest'' \<and> preservePrerequest opts) \<or> (l = ''test'' \<and> preserveTests opts)"
    and "find (\<lambda>e. listen e = l) pevs = Some ex"
  shows "take (length (collectionEventsOf new))
           (collectionEventsOf (mergeCollections opts new existing)) = collectionEventsOf new
       \<and> filter (\<lambda>e. listen e = l) (collectionEventsOf (mergeCollections opts new existing)) =
           (if list_ex (\<lambda>e. listen e = l) (collectionEventsOf new)
            then filter (\<lambda>e. listen e = l) (collectionEventsOf new)
            else [ex])"
proof -
  let ?n = "collectionEventsOf new"
  let ?m = "collectionEventsOf (mergeCollections opts new existing)"
  have m: "?m = ?n @
     (if preservePrerequest opts then missingScript ''prerequest'' pevs ?n else []) @
     (if preserveTests opts then missingScript ''test'' pevs ?n else [])"
    by (rule mergeCollections_events[OF assms(1)])
  have ex: "listen ex = l"
    using find_listen_Some[OF assms(3)] .
  have kept: "take (length ?n) ?m = ?n"
    by (simp add: m)
  have own: "filter (\<lambda>e. listen e = l) (missingScript l pevs ?n) =
      (if list_ex (\<lambda>e. listen e = l) ?n then [] else [ex])"
    using assms(3) ex by (simp add: missingScript_present missingScript_absent)
  have absent: "filter (\<lambda>e. listen e = l) ?n = []" if "\<not> list_ex (\<lambda>e. listen e = l) ?n"
    using that by (rule filter_listen_absent)
  from assms(2) have "filter (\<lambda>e. listen e = l) ?m =
      filter (\<lambda>e. listen e = l) ?n @ filter (\<lambda>e. listen e = l) (missingScript l pevs ?n)"
  proof
    assume "l = ''prerequest'' \<and> preservePrerequest opts"
    then show ?thesis
      using missingScript_other(1)[of "''test''" "''prerequest''" pevs ?n] by (simp add: m)
  next
    assume "l = ''test'' \<and> preserveTests opts"
    then show ?thesis
      using missingScript_other(1)[of "''prerequest''" "''test''" pevs ?n] by (simp add: m)
  qed
  with own absent have filt: "filter (\<lambda>e. listen e = l) ?m =
      (if list_ex (\<lambda>e. listen e = l) ?n then filter (\<lambda>e. listen e = l) ?n else [ex])"
    by simp
  from kept filt show ?thesis by (rule conjI)
qed

text \<open>
  C10 at an example: the new collection declares a \<open>test\<close> event with an empty script, the
  existing one a \<open>prerequest\<close> event with an empty script and a \<open>test\<close> event with a
  non-empty script. The empty \<open>test\<close> event stays, and the empty \<open>prerequest\<close> event is
  appended.
\<close>

theorem collection_script_appended_only_when_absent_witness:
  "collection_event
     (exampleCollection []
        (Some [exampleEvent ''prerequest'' [''  ''], exampleEvent ''test'' [''pm.test(1);'']]) None)
     = Some [exampleEvent ''prerequest'' [''  ''], exampleEvent ''test'' [''pm.test(1);'']]
   \<and> preserveTests defaultOptions \<and> preservePrerequest defaultOptions
   \<and> find (\<lambda>e. listen e = ''test'')
        [exampleEvent ''prerequest'' [''  ''], exampleEvent ''test'' [''pm.test(1);'']]
       = Some (exampleEvent ''test'' [''pm.test(1);''])
   \<and> find (\<lambda>e. listen e = ''prerequest'')
        [exampleEvent ''prerequest'' [''  ''], exampleEvent ''test'' [''pm.test(1);'']]
       = Some (exampleEvent ''prerequest'' [''  ''])
   \<and> hasNonEmptyScript (exampleEvent ''test'' [''pm.test(1);''])
   \<and> \<not> hasNonEmptyScript (exampleEvent ''prerequest'' [''  ''])
   \<and> \<not> hasNonEmptyScript (exampleEvent ''test'' [''''])
   \<and> collectionEventsOf
        (mergeCollections defaultOptions
          (exampleCollection [] (Some [exampleEvent ''test'' ['''']]) None)
          (exampleCollection []
            (Some [exampleEvent ''prerequest'' [''  ''], exampleEvent ''test'' [''pm.test(1);'']])
            None))
       = [exampleEvent ''test'' [''''], exampleEvent ''prerequest'' [''  '']]"
  using
    collection_script_appended_only_when_absent
      [of "exampleCollection []
             (Some [exampleEvent ''prerequest'' [''  ''], exampleEvent ''test'' [''pm.test(1);'']])
             None"
          "[exampleEvent ''prerequest'' [''  ''], exampleEvent ''test'' [''pm.test(1);'']]"
          "''test''" defaultOptions "exampleEvent ''test'' [''pm.test(1);'']"
          "exampleCollection [] (Some [exampleEvent ''test'' ['''']]) None"]
    collection_script_appended_only_when_absent
      [of "exampleCollection []
             (Some [exampleEvent ''prerequest'' [''  ''], exampleEvent ''test'' [''pm.test(1);'']])
             None"
          "[exampleEvent ''prerequest'' [''  ''], exampleEvent ''test'' [''pm.test(1);'']]"
          "''prerequest''" defaultOptions "exampleEvent ''prerequest'' [''  '']"
          "exampleCollection [] (Some [exampleEvent ''test'' ['''']]) None"]
  by (simp add: exampleCollection_def exampleEvent_def defaultOptions_def collectionEventsOf_def
      mergeCollections_def preserveCollectionScript_def buildItemsMap_def mergeItems_def
      hasNonEmptyScript_def trim_def isWhiteSpace_def)

section \<open>The diff of the existing and the merged collection\<close>

lemma join_snoc: "join sep (fs @ [n]) = concat (map (\<lambda>f. f @ sep) fs) @ n"
proof (induction fs)
  case Nil
  show ?case by simp
next
  case (Cons f fs)
  then show ?case by (cases fs) simp_all
qed

lemma set_setAdd: "set (setAdd x s) = insert x (set s)"
  by (auto simp: setAdd_def)

lemma distinct_setAdd: "distinct s \<Longrightarrow> distinct (setAdd x s)"
  by (simp add: setAdd_def)

lemma set_fold_union:
  assumes "\<And>x s. x \<in> set xs \<Longrightarrow> set (f x s) = set s \<union> g x"
  shows "set (fold f xs s) = set s \<union> (\<Union>x\<in>set xs. g x)"
  using assms
proof (induction xs arbitrary: s)
  case Nil
  show ?case by simp
next
  case (Cons x xs)
  have "set (fold f xs (f x s)) = set (f x s) \<union> (\<Union>y\<in>set xs. g y)"
    by (rule Cons.IH) (simp add: Cons.prems)
  also have "set (f x s) = set s \<union> g x"
    by (simp add: Cons.prems)
  finally show ?case by auto
qed

lemma distinct_fold:
  assumes "\<And>x s. x \<in> set xs \<Longrightarrow> distinct s \<Longrightarrow> distinct (f x s)"
  shows "distinct s \<Longrightarrow> distinct (fold f xs s)"
  using assms by (induction xs arbitrary: s) simp_all

lemma set_collectEndpoint:
  "set (collectEndpoint (concat (map (\<lambda>f. f @ ''/'') fs)) it s) = set s \<union> set (leafPaths fs it)"
proof (induction fs it arbitrary: s rule: leafPaths.induct)
  case (1 folders n cs)
  have "set (fold (collectEndpoint (concat (map (\<lambda>f. f @ ''/'') (folders @ [n])))) cs s)
      = set s \<union> (\<Union>c\<in>set cs. set (leafPaths (folders @ [n]) c))"
    by (rule set_fold_union) (rule "1.IH")
  then show ?case by simp
next
  case (2 folders l)
  show ?case by (simp add: set_setAdd join_snoc)
qed

lemma distinct_collectEndpoint: "distinct s \<Longrightarrow> distinct (collectEndpoint prefix it s)"
proof (induction prefix it s rule: collectEndpoint.induct)
  case (1 prefix n cs s)
  show ?case
    using "1.prems" "1.IH" by (simp add: distinct_fold)
next
  case (2 prefix l s)
  then show ?case by (simp add: distinct_setAdd)
qed

lemma set_collectEndpoints: "set (collectEndpoints items [] []) = set (displayPaths items)"
proof -
  have "set (fold (collectEndpoint []) items []) = set [] \<union> (\<Union>it\<in>set items. set (leafPaths [] it))"
    by (rule set_fold_union) (use set_collectEndpoint[of "[]"] in simp)
  then show ?thesis by (simp add: collectEndpoints_def displayPaths_def)
qed

lemma distinct_collectEndpoints: "distinct (collectEndpoints items [] prefix)"
  unfolding collectEndpoints_def
  by (rule distinct_fold) (simp_all add: distinct_collectEndpoint)

text \<open>
  C7. The diff is computed over the display paths of the request leaves (folder names and
  the request's name joined with \<open>/\<close>; the endpoint key plays no part: all requests of
  the examples have the key \<open>GET:pets\<close>). \<open>added\<close> holds the paths of the merged collection
  that the existing one lacks, \<open>removed\<close> the paths of the existing collection that the
  merged one lacks, \<open>preserved\<close> the paths of both; the three are pairwise disjoint and
  without repetition. For existing endpoints A, B and merged endpoints B, C the diff is
  added = [C], removed = [A], preserved = [B].
\<close>

theorem calculateDiff_display_paths:
  "set (added (calculateDiff existing merged))
     = set (displayPaths (item merged)) - set (displayPaths (item existing))
   \<and> set (removed (calculateDiff existing merged))
     = set (displayPaths (item existing)) - set (displayPaths (item merged))
   \<and> set (preserved (calculateDiff existing merged))
     = set (displayPaths (item merged)) \<inter> set (displayPaths (item existing))
   \<and> set (added (calculateDiff existing merged)) \<inter> set (removed (calculateDiff existing merged)) = {}
   \<and> set (added (calculateDiff existing merged)) \<inter> set (preserved (calculateDiff existing merged)) = {}
   \<and> set (removed (calculateDiff existing merged)) \<inter> set (preserved (calculateDiff existing merged)) = {}
   \<and> distinct (added (calculateDiff existing merged))
   \<and> distinct (removed (calculateDiff existing merged))
   \<and> distinct (preserved (calculateDiff existing merged))
   \<and> calculateDiff
         (exampleCollection [Leaf (exampleRequest ''A'' None), Leaf (exampleRequest ''B'' None)] None None)
         (exampleCollection [Leaf (exampleRequest ''B'' None), Leaf (exampleRequest ''C'' None)] None None)
       = \<lparr>added = [''C''], removed = [''A''], preserved = [''B'']\<rparr>
   \<and> calculateDiff
         (exampleCollection
            [Folder ''Pets'' [Leaf (exampleRequest ''A'' None), Leaf (exampleRequest ''B'' None)]] None None)
         (exampleCollection
            [Folder ''Pets'' [Leaf (exampleRequest ''B'' None)],
             Folder ''Store'' [Folder ''Orders'' [Leaf (exampleRequest ''C'' None)]]] None None)
       = \<lparr>added = [''Store/Orders/C''], removed = [''Pets/A''], preserved = [''Pets/B'']\<rparr>"
proof -
  let ?E = "collectEndpoints (item existing) [] []"
  let ?M = "collectEndpoints (item merged) [] []"
  have E: "set ?E = set (displayPaths (item existing))"
    and M: "set ?M = set (displayPaths (item merged))"
    by (rule set_collectEndpoints)+
  have dE: "distinct ?E" and dM: "distinct ?M"
    by (rule distinct_collectEndpoints)+
  have a: "added (calculateDiff existing merged) = filter (\<lambda>e. e \<notin> set ?E) ?M"
    and r: "removed (calculateDiff existing merged) = filter (\<lambda>e. e \<notin> set ?M) ?E"
    and p: "preserved (calculateDiff existing merged) = filter (\<lambda>e. e \<in> set ?E) ?M"
    by (simp_all add: calculateDiff_def Let_def)
  have sets: "set (added (calculateDiff existing merged))
       = set (displayPaths (item merged)) - set (displayPaths (item existing))"
    "set (removed (calculateDiff existing merged))
       = set (displayPaths (item existing)) - set (displayPaths (item merged))"
    "set (preserved (calculateDiff existing merged))
       = set (displayPaths (item merged)) \<inter> set (displayPaths (item existing))"
    unfolding a r p using E M by auto
  have disj: "set (added (calculateDiff existing merged)) \<inter> set (removed (calculateDiff existing merged)) = {}"
    "set (added (calculateDiff existing merged)) \<inter> set (preserved (calculateDiff existing merged)) = {}"
    "set (removed (calculateDiff existing merged)) \<inter> set (preserved (calculateDiff existing merged)) = {}"
    unfolding sets by auto
  have dist: "distinct (added (calculateDiff existing merged))"
    "distinct (removed (calculateDiff existing merged))"
    "distinct (preserved (calculateDiff existing merged))"
    unfolding a r p using dE dM by simp_all
  have flat: "calculateDiff
         (exampleCollection [Leaf (exampleRequest ''A'' None), Leaf (exampleRequest ''B'' None)] None None)
         (exampleCollection [Leaf (exampleRequest ''B'' None), Leaf (exampleRequest ''C'' None)] None None)
       = \<lparr>added = [''C''], removed = [''A''], preserved = [''B'']\<rparr>"
    by (simp add: calculateDiff_def collectEndpoints_def setAdd_def exampleCollection_def
        exampleRequest_def)
  have nested: "calculateDiff
         (exampleCollection
            [Folder ''Pets'' [Leaf (exampleRequest ''A'' None), Leaf (exampleRequest ''B'' None)]] None None)
         (exampleCollection
            [Folder ''Pets'' [Leaf (exampleRequest ''B'' None)],
             Folder ''Store'' [Folder ''Orders'' [Leaf (exampleRequest ''C'' None)]]] None None)
       = \<lparr>added = [''Store/Orders/C''], removed = [''Pets/A''], preserved = [''Pets/B'']\<rparr>"
    by (simp add: calculateDiff_def collectEndpoints_def setAdd_def exampleCollection_def
        exampleRequest_def)
  show ?thesis
    by (intro conjI sets disj dist flat nested)
qed

section \<open>The arrays of the new collection during the merge\<close>

text \<open>
  The store model computes the collection that \<open>mergeCollections\<close> computes on values.
\<close>

lemma fold_pushVariable:
  "fold (\<lambda>v st. if var_key v \<notin> ks then pushVariable a v st else st) vs st =
     st\<lparr>variableArrays := (variableArrays st)(a := variableArrays st a @ filter (\<lambda>v. var_key v \<notin> ks) vs)\<rparr>"
proof (induction vs arbitrary: st)
  case Nil
  show ?case by simp
next
  case (Cons v vs)
  show ?case
  proof (cases "var_key v \<in> ks")
    case True
    then show ?thesis by (simp add: Cons.IH)
  next
    case False
    have "variableArrays (pushVariable a v st) a = variableArrays st a @ [v]"
      by (simp add: pushVariable_def)
    moreover have "(variableArrays (pushVariable a v st))(a := xs) = (variableArrays st)(a := xs)" for xs
      by (simp add: pushVariable_def)
    moreover have "pushVariable a v st\<lparr>variableArrays := f\<rparr> = st\<lparr>variableArrays := f\<rparr>" for f
      by (simp add: pushVariable_def)
    ultimately show ?thesis using False by (simp add: Cons.IH)
  qed
qed

lemma preserveCollectionScriptStore_load:
  assumes "preserveCollectionScriptStore l evs (m, st) = (m', st')"
  shows "map_option (eventArrays st') (object_event m') =
           preserveCollectionScript l evs (map_option (eventArrays st) (object_event m))"
    and "variableArrays st' = variableArrays st"
    and "object_variable m' = object_variable m"
    and "object_info m' = object_info m"
    and "object_item m' = object_item m"
  using assms
  by (auto simp: preserveCollectionScriptStore_def preserveCollectionScript_def newEventArray_def
      pushEvent_def Let_def split: option.splits prod.splits)

lemma preserveCollectionVariablesStore_load:
  assumes "preserveCollectionVariablesStore vs (object_variable m) (m, st) = (m', st')"
  shows "map_option (variableArrays st') (object_variable m') =
           preserveCollectionVariables vs (map_option (variableArrays st) (object_variable m))
             (map_option (variableArrays st) (object_variable m))"
    and "eventArrays st' = eventArrays st"
    and "object_event m' = object_event m"
    and "object_info m' = object_info m"
    and "object_item m' = object_item m"
  using assms
  by (auto simp: preserveCollectionVariablesStore_def preserveCollectionVariables_def
      newVariableArray_def fold_pushVariable Let_def split: option.splits prod.splits)

lemma scriptStage_load:
  assumes "(if b then preserveCollectionScriptStore l evs (m, st) else (m, st)) = (m', st')"
  shows "loadCollection st' m' =
           (if b then (loadCollection st m)
              \<lparr>collection_event := preserveCollectionScript l evs (collection_event (loadCollection st m))\<rparr>
            else loadCollection st m)"
    and "variableArrays st' = variableArrays st"
    and "object_variable m' = object_variable m"
proof -
  show "variableArrays st' = variableArrays st" "object_variable m' = object_variable m"
    using assms preserveCollectionScriptStore_load(2,3)[of l evs m st m' st']
    by (auto split: if_splits)
  show "loadCollection st' m' =
           (if b then (loadCollection st m)
              \<lparr>collection_event := preserveCollectionScript l evs (collection_event (loadCollection st m))\<rparr>
            else loadCollection st m)"
  proof (cases b)
    case False
    with assms show ?thesis by simp
  next
    case True
    with assms have s: "preserveCollectionScriptStore l evs (m, st) = (m', st')" by simp
    show ?thesis
      using True preserveCollectionScriptStore_load[OF s]
      by (simp add: loadCollection_def)
  qed
qed

lemma variableStage_load:
  assumes "(if b then preserveCollectionVariablesStore vs (object_variable m) (m, st) else (m, st)) = (m', st')"
  shows "loadCollection st' m' =
           (if b then (loadCollection st m)
              \<lparr>collection_variable := preserveCollectionVariables vs
                   (collection_variable (loadCollection st m))
                   (collection_variable (loadCollection st m))\<rparr>
            else loadCollection st m)"
proof (cases b)
  case False
  with assms show ?thesis by simp
next
  case True
  with assms have s: "preserveCollectionVariablesStore vs (object_variable m) (m, st) = (m', st')"
    by simp
  show ?thesis
    using True preserveCollectionVariablesStore_load[OF s]
    by (simp add: loadCollection_def)
qed

lemma mergeCollectionsStore_refines:
  assumes "mergeCollectionsStore opts newObj existing st = (m, st')"
  shows "loadCollection st' m = mergeCollections opts (loadCollection st newObj) existing"
proof -
  define m0 where "m0 = newObj
            \<lparr>object_info := (object_info newObj)
               \<lparr>postman_id :=
                  (case postman_id (info existing) of
                     Some i \<Rightarrow> if i \<noteq> [] then Some i else postman_id (object_info newObj)
                   | None \<Rightarrow> postman_id (object_info newObj))\<rparr>,
             object_item := mergeItems (object_item newObj)
                (buildItemsMap (item existing) [] Map.empty) []\<rparr>"
  define evs where "evs = (case collection_event existing of None \<Rightarrow> [] | Some es \<Rightarrow> es)"
  define vs where "vs = (case collection_variable existing of None \<Rightarrow> [] | Some xs \<Rightarrow> xs)"
  define bp where "bp = (collection_event existing \<noteq> None \<and> preservePrerequest opts)"
  define bt where "bt = (collection_event existing \<noteq> None \<and> preserveTests opts)"
  define bv where "bv = (collection_variable existing \<noteq> None \<and> preserveVariables opts)"
  obtain m1 st1 where s1:
    "(if bp then preserveCollectionScriptStore ''prerequest'' evs (m0, st) else (m0, st)) = (m1, st1)"
    by (cases "if bp then preserveCollectionScriptStore ''prerequest'' evs (m0, st) else (m0, st)")
  obtain m2 st2 where s2:
    "(if bt then preserveCollectionScriptStore ''test'' evs (m1, st1) else (m1, st1)) = (m2, st2)"
    by (cases "if bt then preserveCollectionScriptStore ''test'' evs (m1, st1) else (m1, st1)")
  obtain m3 st3 where s3:
    "(if bv then preserveCollectionVariablesStore vs (object_variable m2) (m2, st2) else (m2, st2)) = (m3, st3)"
    by (cases "if bv then preserveCollectionVariablesStore vs (object_variable m2) (m2, st2) else (m2, st2)")
  have v2: "object_variable m2 = object_variable newObj"
    using scriptStage_load(3)[OF s1] scriptStage_load(3)[OF s2] by (simp add: m0_def)
  have run: "mergeCollectionsStore opts newObj existing st = (m3, st3)"
    using s1 s2 s3 v2
    by (auto simp: mergeCollectionsStore_def Let_def m0_def evs_def vs_def bp_def bt_def bv_def
        split: option.splits if_splits)
  with assms have eq: "m = m3" "st' = st3" by simp_all
  let ?c0 = "loadCollection st m0"
  let ?c1 = "if bp then ?c0\<lparr>collection_event := preserveCollectionScript ''prerequest'' evs (collection_event ?c0)\<rparr> else ?c0"
  let ?c2 = "if bt then ?c1\<lparr>collection_event := preserveCollectionScript ''test'' evs (collection_event ?c1)\<rparr> else ?c1"
  let ?c3 = "if bv then ?c2\<lparr>collection_variable := preserveCollectionVariables vs (collection_variable ?c2) (collection_variable ?c2)\<rparr> else ?c2"
  have l1: "loadCollection st1 m1 = ?c1" using scriptStage_load(1)[OF s1] .
  have l2: "loadCollection st2 m2 = ?c2" using scriptStage_load(1)[OF s2] l1 by simp
  have l3: "loadCollection st3 m3 = ?c3" using variableStage_load[OF s3] l2 by simp
  have sel: "info (loadCollection st newObj) = object_info newObj"
    "item (loadCollection st newObj) = object_item newObj"
    by (simp_all add: loadCollection_def)
  have c0: "?c0 = (loadCollection st newObj)
            \<lparr>info := (info (loadCollection st newObj))
               \<lparr>postman_id :=
                  (case postman_id (info existing) of
                     Some i \<Rightarrow> if i \<noteq> [] then Some i else postman_id (info (loadCollection st newObj))
                   | None \<Rightarrow> postman_id (info (loadCollection st newObj)))\<rparr>,
             item := mergeItems (item (loadCollection st newObj))
                (buildItemsMap (item existing) [] Map.empty) []\<rparr>"
    unfolding sel by (simp add: loadCollection_def m0_def)
  have "?c3 = mergeCollections opts (loadCollection st newObj) existing"
    unfolding c0
    by (auto simp: mergeCollections_def Let_def evs_def vs_def bp_def bt_def bv_def
        split: option.splits)
  with l3 eq show ?thesis by simp
qed

text \<open>
  C3 at a failing input. The new collection has an event array with one \<open>test\<close> event and a
  variable array with one variable; the existing collection has a \<open>prerequest\<close> event and
  another variable. The merged object holds the addresses of the new collection's arrays,
  and after the merge these arrays hold the appended event and variable: the new collection
  read from the store after the merge is not the one that was passed in.
\<close>

theorem merge_mutates_candidate_arrays:
  "(let st = exampleStore [exampleEvent ''test'' ['''']]
               [\<lparr>var_key = ''baseUrl'', var_value = ''http://localhost''\<rparr>];
        existing = exampleCollection []
               (Some [exampleEvent ''prerequest'' [''console.log(1);'']])
               (Some [\<lparr>var_key = ''token'', var_value = ''abc''\<rparr>]);
        (m, st') = mergeCollectionsStore defaultOptions exampleObject existing st
    in object_event m = object_event exampleObject
     \<and> object_variable m = object_variable exampleObject
     \<and> collection_event (loadCollection st exampleObject) = Some [exampleEvent ''test'' ['''']]
     \<and> collection_event (loadCollection st' exampleObject)
         = Some [exampleEvent ''test'' [''''], exampleEvent ''prerequest'' [''console.log(1);'']]
     \<and> collection_variable (loadCollection st exampleObject)
         = Some [\<lparr>var_key = ''baseUrl'', var_value = ''http://localhost''\<rparr>]
     \<and> collection_variable (loadCollection st' exampleObject)
         = Some [\<lparr>var_key = ''baseUrl'', var_value = ''http://localhost''\<rparr>,
                 \<lparr>var_key = ''token'', var_value = ''abc''\<rparr>]
     \<and> loadCollection st' exampleObject \<noteq> loadCollection st exampleObject)"
  by (simp add: mergeCollectionsStore_def preserveCollectionScriptStore_def
      preserveCollectionVariablesStore_def pushEvent_def pushVariable_def loadCollection_def
      exampleStore_def exampleObject_def exampleCollection_def exampleEvent_def defaultOptions_def
      buildItemsMap_def mergeItems_def Let_def)

section \<open>The value sanitizer\<close>

text \<open>The model gives the key of the sanitizer's test for the path \<open>['pets', ':petId']\<close>.\<close>

lemma buildEndpointKey_example:
  "buildEndpointKey \<lparr>request_method = ''get'', request_path = [''pets'', '':petId''],
      request_variables = [], request_body = None, response_bodies = []\<rparr> = ''GET:/pets/{petId}''"
  by (simp add: buildEndpointKey_def braceSegment_def toUpperChar_def)

text \<open>
  The built-in steps on cases of the sanitizer's tests: the schema's example before its
  enum, the first enum value, the format default, a field name matched without regard to
  case and by suffix, the fallback for booleans, and nothing for an unknown field.
\<close>

lemma builtinValue_examples:
  "builtinValue exampleParameters ''status''
     (Some \<lparr>schema_type = None, schema_format = None, schema_example = Some (JString ''Buddy''),
            schema_enum = Some [JString ''available'', JString ''pending''],
            schema_minimum = None, schema_maximum = None\<rparr>) = Some (JString ''Buddy'')"
  "builtinValue exampleParameters ''status''
     (Some \<lparr>schema_type = None, schema_format = None, schema_example = None,
            schema_enum = Some [JString ''available'', JString ''pending''],
            schema_minimum = None, schema_maximum = None\<rparr>) = Some (JString ''available'')"
  "builtinValue exampleParameters ''contact''
     (Some \<lparr>schema_type = Some ''string'', schema_format = Some ''email'', schema_example = None,
            schema_enum = None, schema_minimum = None, schema_maximum = None\<rparr>)
     = Some (JString ''user@example.com'')"
  "builtinValue exampleParameters ''Email'' None = Some (JString ''user@example.com'')"
  "builtinValue exampleParameters ''petName'' None = Some (JString ''John Doe'')"
  "builtinValue exampleParameters ''unknownField''
     (Some \<lparr>schema_type = Some ''boolean'', schema_format = None, schema_example = None,
            schema_enum = None, schema_minimum = None, schema_maximum = None\<rparr>) = Some (JBool True)"
  "builtinValue exampleParameters ''unknownField'' None = None"
  by (simp_all add: builtinValue_def fieldNameDefault_def endsWith_def typeFallback_def
      toLowerChar_def exampleParameters_def)

subsection \<open>Priority of the user's values\<close>

text \<open>
  C5. In \<open>resolveValue\<close> an endpoint override for the endpoint key and field is the result,
  whatever the field default, the schema and the tables say; without such an override a
  field default is the result, whatever the schema and the tables say. With field defaults
  \<open>{name: "Default"}\<close> and endpoint overrides \<open>{"POST:/pets": {name: "Override"}}\<close>,
  field \<open>name\<close> resolves to \<open>"Override"\<close> for the key \<open>POST:/pets\<close> and to \<open>"Default"\<close> for
  every other key and for no key.
\<close>

theorem resolveValue_priority:
  "(endpointOverrides u k = Some overrides \<and> overrides fieldName = Some v \<longrightarrow>
      resolveValue params fieldName fieldSchema (Some u) (Some k) = Some v)
   \<and> ((\<forall>k overrides. endpointKey = Some k \<and> endpointOverrides u k = Some overrides \<longrightarrow>
           overrides fieldName = None)
        \<and> fieldDefaults u fieldName = Some v \<longrightarrow>
      resolveValue params fieldName fieldSchema (Some u) endpointKey = Some v)
   \<and> resolveValue params ''name'' fieldSchema (Some exampleUserValueMap) (Some ''POST:/pets'')
       = Some (JString ''Override'')
   \<and> (endpointKey \<noteq> Some ''POST:/pets'' \<longrightarrow>
        resolveValue params ''name'' fieldSchema (Some exampleUserValueMap) endpointKey
        = Some (JString ''Default''))"
proof (intro conjI impI)
  assume "endpointOverrides u k = Some overrides \<and> overrides fieldName = Some v"
  then show "resolveValue params fieldName fieldSchema (Some u) (Some k) = Some v"
    by (simp add: resolveValue_def)
next
  assume a: "(\<forall>k overrides. endpointKey = Some k \<and> endpointOverrides u k = Some overrides \<longrightarrow>
           overrides fieldName = None) \<and> fieldDefaults u fieldName = Some v"
  then have "(case endpointKey of
                Some k \<Rightarrow> (case endpointOverrides u k of Some overrides \<Rightarrow> overrides fieldName | None \<Rightarrow> None)
              | None \<Rightarrow> None) = None"
    by (simp split: option.splits)
  with a show "resolveValue params fieldName fieldSchema (Some u) endpointKey = Some v"
    by (simp add: resolveValue_def)
next
  show "resolveValue params ''name'' fieldSchema (Some exampleUserValueMap) (Some ''POST:/pets'')
       = Some (JString ''Override'')"
    by (simp add: resolveValue_def exampleUserValueMap_def)
next
  assume "endpointKey \<noteq> Some ''POST:/pets''"
  then show "resolveValue params ''name'' fieldSchema (Some exampleUserValueMap) endpointKey
        = Some (JString ''Default'')"
    by (cases endpointKey) (simp_all add: resolveValue_def exampleUserValueMap_def)
qed

text \<open>
  C5 at an example where the schema declares the example \<open>"Buddy"\<close> for the field, which the
  built-in steps alone would return.
\<close>

theorem resolveValue_priority_witness:
  "builtinValue exampleParameters ''name''
     (Some \<lparr>schema_type = Some ''string'', schema_format = None,
            schema_example = Some (JString ''Buddy''), schema_enum = None,
            schema_minimum = None, schema_maximum = None\<rparr>) = Some (JString ''Buddy'')
   \<and> endpointOverrides exampleUserValueMap ''POST:/pets'' = Some [''name'' \<mapsto> JString ''Override'']
   \<and> endpointOverrides exampleUserValueMap ''GET:/users'' = None
   \<and> fieldDefaults exampleUserValueMap ''name'' = Some (JString ''Default'')
   \<and> Some ''GET:/users'' \<noteq> Some ''POST:/pets''
   \<and> resolveValue exampleParameters ''name''
        (Some \<lparr>schema_type = Some ''string'', schema_format = None,
               schema_example = Some (JString ''Buddy''), schema_enum = None,
               schema_minimum = None, schema_maximum = None\<rparr>)
        (Some exampleUserValueMap) (Some ''POST:/pets'') = Some (JString ''Override'')
   \<and> resolveValue exampleParameters ''name''
        (Some \<lparr>schema_type = Some ''string'', schema_format = None,
               schema_example = Some (JString ''Buddy''), schema_enum = None,
               schema_minimum = None, schema_maximum = None\<rparr>)
        (Some exampleUserValueMap) (Some ''GET:/users'') = Some (JString ''Default'')"
  using resolveValue_priority
    [of exampleUserValueMap "''POST:/pets''" "[''name'' \<mapsto> JString ''Override'']" "''name''"
        "JString ''Override''" exampleParameters
        "Some \<lparr>schema_type = Some ''string'', schema_format = None,
               schema_example = Some (JString ''Buddy''), schema_enum = None,
               schema_minimum = None, schema_maximum = None\<rparr>"
        "Some ''GET:/users''"]
  by (simp add: builtinValue_def exampleUserValueMap_def)

subsection \<open>Null and empty collections\<close>

text \<open>
  C9. For every specification and user value map, sanitizing \<open>null\<close> returns \<open>null\<close> and
  sanitizing the collection \<open>{}\<close> returns \<open>{}\<close>, in particular with the specification \<open>{}\<close>
  and no user value map. The model has no error result: nothing is thrown.
\<close>

theorem sanitizeCollection_null_and_empty:
  "sanitizeCollection params None spec userValueMap = None
   \<and> sanitizeCollection params (Some \<lparr>collection_items = None\<rparr>) spec userValueMap
       = Some \<lparr>collection_items = None\<rparr>
   \<and> sanitizeCollection params (Some \<lparr>collection_items = None\<rparr>) (Some \<lparr>schemas = None\<rparr>) None
       = Some \<lparr>collection_items = None\<rparr>"
  by (simp add: sanitizeCollection_def)

subsection \<open>Clean data is left alone\<close>

lemma sanitizeLeaf_authentic:
  "\<not> isRandomValue params v \<Longrightarrow> sanitizeLeaf params schemaMap userValueMap endpointKey fieldName v = v"
  by (simp add: sanitizeLeaf_def)

lemma sanitizeJson_clean:
  "(\<forall>f v. \<not> isRandom v \<longrightarrow> visit f v = v) \<Longrightarrow> cleanJson isRandom j \<Longrightarrow>
   sanitizeJson visit fieldName j = j"
proof (induction visit fieldName j rule: sanitizeJson.induct)
  case (1 visit fieldName members)
  have "map (\<lambda>kv. (fst kv, sanitizeJson visit (fst kv) (snd kv))) members = members"
  proof (rule map_idI)
    fix kv assume kv: "kv \<in> set members"
    with "1.prems"(2) have "cleanJson isRandom (snd kv)" by (simp add: list_all_iff)
    with "1.IH"[OF kv "1.prems"(1)] show "(fst kv, sanitizeJson visit (fst kv) (snd kv)) = kv"
      by simp
  qed
  then show ?case by simp
next
  case (2 visit fieldName elements)
  have "map (sanitizeJson visit fieldName) elements = elements"
  proof (rule map_idI)
    fix e assume e: "e \<in> set elements"
    with "2.prems"(2) have "cleanJson isRandom e" by (simp add: list_all_iff)
    with "2.IH"[OF e "2.prems"(1)] show "sanitizeJson visit fieldName e = e" by simp
  qed
  then show ?case by simp
qed simp_all

lemma sanitizeBody_clean:
  "(\<forall>f v. \<not> isRandom v \<longrightarrow> visit f v = v) \<Longrightarrow> cleanBody isRandom b \<Longrightarrow>
   map_option (sanitizeBody visit) b = b"
  by (induction isRandom b rule: cleanBody.induct) (simp_all add: sanitizeJson_clean)

lemma sanitizeRequest_clean:
  assumes "cleanRequest (isRandomValue params) r"
  shows "sanitizeRequest params schemaMap userValueMap r = r"
proof -
  let ?visit = "sanitizeLeaf params schemaMap userValueMap (buildEndpointKey r)"
  have visit: "\<forall>f v. \<not> isRandomValue params v \<longrightarrow> ?visit f v = v"
    by (simp add: sanitizeLeaf_authentic)
  have vars: "map (\<lambda>pv. pv\<lparr>path_variable_value := ?visit (path_variable_key pv) (path_variable_value pv)\<rparr>)
      (request_variables r) = request_variables r"
  proof (rule map_idI)
    fix pv assume "pv \<in> set (request_variables r)"
    with assms have "\<not> isRandomValue params (path_variable_value pv)"
      by (simp add: cleanRequest_def list_all_iff)
    then show "pv\<lparr>path_variable_value := ?visit (path_variable_key pv) (path_variable_value pv)\<rparr> = pv"
      by (simp add: sanitizeLeaf_authentic)
  qed
  have body: "map_option (sanitizeBody ?visit) (request_body r) = request_body r"
    using assms by (intro sanitizeBody_clean[OF visit]) (simp add: cleanRequest_def)
  have responses: "map (map_option (sanitizeBody ?visit)) (response_bodies r) = response_bodies r"
  proof (rule map_idI)
    fix b assume "b \<in> set (response_bodies r)"
    with assms have "cleanBody (isRandomValue params) b"
      by (simp add: cleanRequest_def list_all_iff)
    then show "map_option (sanitizeBody ?visit) b = b"
      by (rule sanitizeBody_clean[OF visit])
  qed
  show ?thesis
    by (simp add: sanitizeRequest_def Let_def vars body responses)
qed

lemma sanitizeItem_clean:
  "cleanItem (isRandomValue params) it \<Longrightarrow> sanitizeItem params schemaMap userValueMap it = it"
proof (induction params schemaMap userValueMap it rule: sanitizeItem.induct)
  case (1 params schemaMap userValueMap n children)
  have "map (sanitizeItem params schemaMap userValueMap) children = children"
  proof (rule map_idI)
    fix c assume c: "c \<in> set children"
    with "1.prems" have "cleanItem (isRandomValue params) c" by (simp add: list_all_iff)
    then show "sanitizeItem params schemaMap userValueMap c = c" by (rule "1.IH"[OF c])
  qed
  then show ?case by simp
next
  case (2 params schemaMap userValueMap n r)
  then show ?case by (simp add: sanitizeRequest_clean)
qed

lemma sanitizeCollection_clean:
  assumes "cleanCollection (isRandomValue params) c"
  shows "sanitizeCollection params (Some c) spec userValueMap = Some c"
proof (cases "collection_items c")
  case None
  then show ?thesis by (simp add: sanitizeCollection_def)
next
  case (Some items)
  have "map (sanitizeItem params (buildSchemaMap spec) userValueMap) items = items"
  proof (rule map_idI)
    fix it assume "it \<in> set items"
    with assms Some have "cleanItem (isRandomValue params) it"
      by (simp add: cleanCollection_def list_all_iff)
    then show "sanitizeItem params (buildSchemaMap spec) userValueMap it = it"
      by (rule sanitizeItem_clean)
  qed
  with Some show ?thesis by (simp add: sanitizeCollection_def)
qed

text \<open>
  C4. If the classifier flags no scalar of a JSON request or response body and no
  path-variable value of a collection, sanitizing returns the collection unchanged, and so
  does sanitizing any number of times, whatever the specification, the user value map and
  the tables offer as replacement.
\<close>

theorem sanitizeCollection_identity_on_clean:
  assumes "cleanCollection (isRandomValue params) c"
  shows "sanitizeCollection params (Some c) spec userValueMap = Some c
       \<and> ((\<lambda>x. sanitizeCollection params x spec userValueMap) ^^ n) (Some c) = Some c"
proof
  show one: "sanitizeCollection params (Some c) spec userValueMap = Some c"
    using assms by (rule sanitizeCollection_clean)
  show "((\<lambda>x. sanitizeCollection params x spec userValueMap) ^^ n) (Some c) = Some c"
    by (induction n) (simp_all add: one)
qed

text \<open>
  C4 at an example: a clean collection, a user value map that offers \<open>"Override"\<close> for the
  field \<open>name\<close> of the request (and is used when the value is a placeholder), three runs.
\<close>

theorem sanitizeCollection_identity_on_clean_witness:
  "cleanCollection (isRandomValue exampleParameters) exampleSanitizerCollection
   \<and> resolveValue exampleParameters ''name'' None (Some exampleUserValueMap) (Some ''POST:/pets'')
       = Some (JString ''Override'')
   \<and> sanitizeLeaf exampleParameters [] (Some exampleUserValueMap) ''POST:/pets'' ''name''
        (JString ''aliquip'') = JString ''Override''
   \<and> sanitizeCollection exampleParameters (Some exampleSanitizerCollection) None
        (Some exampleUserValueMap) = Some exampleSanitizerCollection
   \<and> ((\<lambda>x. sanitizeCollection exampleParameters x None (Some exampleUserValueMap)) ^^ 3)
        (Some exampleSanitizerCollection) = Some exampleSanitizerCollection"
proof -
  have clean: "cleanCollection (isRandomValue exampleParameters) exampleSanitizerCollection"
    by (simp add: cleanCollection_def cleanRequest_def exampleSanitizerCollection_def
        exampleParameters_def)
  have stronger: "resolveValue exampleParameters ''name'' None (Some exampleUserValueMap)
      (Some ''POST:/pets'') = Some (JString ''Override'')"
    by (simp add: resolveValue_def exampleUserValueMap_def)
  have replaced: "sanitizeLeaf exampleParameters [] (Some exampleUserValueMap) ''POST:/pets'' ''name''
        (JString ''aliquip'') = JString ''Override''"
    by (simp add: sanitizeLeaf_def stronger) (simp add: exampleParameters_def)
  from clean stronger replaced
    sanitizeCollection_identity_on_clean[OF clean, of None "Some exampleUserValueMap" 3]
  show ?thesis by simp
qed

end
